theory Spec2Isabelle
  imports
    Complex_Main
    "HOL-Library.Multiset"
    "HOL-Library.Char_ord"
    "HOL-Library.List_Lexorder"
begin

section \<open>Calendar dates\<close>

text \<open>
  The program keeps dates as ISO text (\<open>YYYY-MM-DD\<close>) and turns them into values of the
  standard library's \<open>date\<close> type before it computes with them. A date is represented
  here by its proleptic Gregorian ordinal, the number \<open>date.toordinal()\<close> returns
  (day 1 is 0001-01-01). On canonical ISO text the order of the strings, which the
  database compares, is the order of the ordinals. Ordinals are not bounded: the text
  format of a date and the range of years the library's type can hold are outside this
  development.
\<close>

type_synonym date = int

definition is_leap :: "int \<Rightarrow> bool" where
  "is_leap year = (year mod 4 = 0 \<and> (year mod 100 \<noteq> 0 \<or> year mod 400 = 0))"

definition days_before_year :: "int \<Rightarrow> int" where
  "days_before_year year =
     (let y = year - 1 in y * 365 + y div 4 - y div 100 + y div 400)"

definition DAYS_IN_MONTH :: "int list" where
  "DAYS_IN_MONTH = [-1, 31, 28, 31, 30, 31, 30, 31, 31, 30, 31, 30, 31]"

definition days_in_month :: "int \<Rightarrow> int \<Rightarrow> int" where
  "days_in_month year month =
     (if month = 2 \<and> is_leap year then 29 else DAYS_IN_MONTH ! nat month)"

definition DAYS_BEFORE_MONTH :: "int list" where
  "DAYS_BEFORE_MONTH = [-1, 0, 31, 59, 90, 120, 151, 181, 212, 243, 273, 304, 334]"

definition days_before_month :: "int \<Rightarrow> int \<Rightarrow> int" where
  "days_before_month year month =
     DAYS_BEFORE_MONTH ! nat month + (if month > 2 \<and> is_leap year then 1 else 0)"

text \<open>
  \<open>ymd2ord year month day\<close> is the ordinal of a calendar date with
  \<open>1 \<le> month \<le> 12\<close>; it is how the library builds a date from its three fields.
\<close>

definition ymd2ord :: "int \<Rightarrow> int \<Rightarrow> int \<Rightarrow> date" where
  "ymd2ord year month day = days_before_year year + days_before_month year month + day"

text \<open>\<open>date.weekday()\<close>: Monday is 0 and Sunday is 6.\<close>

definition weekday :: "date \<Rightarrow> int" where
  "weekday d = (d + 6) mod 7"

section \<open>Working-day calculator\<close>

text \<open>
  The loop of \<open>calculate_working_days\<close>: \<open>current_date\<close> walks forward one day at a
  time while it is not after \<open>end\<close>, and \<open>working_days\<close> counts the days whose
  weekday is below 5.
\<close>

function working_days_loop :: "date \<Rightarrow> date \<Rightarrow> int \<Rightarrow> int" where
  "working_days_loop current_date end working_days =
     (if current_date \<le> end
      then working_days_loop (current_date + 1) end
             (if weekday current_date < 5 then working_days + 1 else working_days)
      else working_days)"
  by pat_completeness auto
termination
  by (relation "measure (\<lambda>(current_date, end, working_days). nat (end + 1 - current_date))") auto

declare working_days_loop.simps [simp del]

text \<open>
  \<open>calculate_working_days today start_date end_date\<close>: \<open>today\<close> is what
  \<open>date.today()\<close> returns, used when \<open>end_date\<close> is \<open>None\<close>.
\<close>

definition calculate_working_days :: "date \<Rightarrow> date \<Rightarrow> date option \<Rightarrow> int" where
  "calculate_working_days today start_date end_date =
     (let end = (case end_date of None \<Rightarrow> today | Some e \<Rightarrow> e);
          start = start_date
      in if start = end then 1
         else working_days_loop (start + 1) end 0 + 1)"

section \<open>Text: the library operations the program applies to strings\<close>

text \<open>
  Strings are lists of characters and cover ASCII text; a character outside ASCII counts
  as neither a digit nor white space. Errors are values: the exceptions that the modelled
  code can raise.
\<close>

datatype py_error = ValueError | TypeError | IntegrityError | OperationalError | IllegalMonthError

definition is_space :: "char \<Rightarrow> bool" where
  "is_space c = (of_char c \<in> {9, 10, 11, 12, 13, 32 :: nat})"

definition is_digit :: "char \<Rightarrow> bool" where
  "is_digit c = (48 \<le> (of_char c :: nat) \<and> (of_char c :: nat) \<le> 57)"

definition digit_val :: "char \<Rightarrow> int" where
  "digit_val c = int (of_char c) - 48"

definition digit_char :: "nat \<Rightarrow> char" where
  "digit_char d = char_of (48 + d)"

definition strip :: "string \<Rightarrow> string" where
  "strip s = rev (dropWhile is_space (rev (dropWhile is_space s)))"

text \<open>
  \<open>int(s)\<close> on a string, in base ten: white space (tab, line feed, vertical tab, form
  feed, carriage return and the space; not the separators 28 to 31) is stripped at both
  ends, one sign
  may lead, then come decimal digits, where a single underscore may stand between two
  digits. Anything else raises \<open>ValueError\<close>, here the value \<open>None\<close>.
\<close>

fun parse_digits :: "int \<Rightarrow> string \<Rightarrow> int option" where
  "parse_digits acc [] = Some acc"
| "parse_digits acc [c] = (if is_digit c then Some (acc * 10 + digit_val c) else None)"
| "parse_digits acc (c # d # ds) =
     (if is_digit c then parse_digits (acc * 10 + digit_val c) (d # ds)
      else if c = CHR ''_'' \<and> is_digit d then parse_digits (acc * 10 + digit_val d) ds
      else None)"

definition parse_unsigned :: "string \<Rightarrow> int option" where
  "parse_unsigned s =
     (case s of [] \<Rightarrow> None
      | c # cs \<Rightarrow> if is_digit c then parse_digits (digit_val c) cs else None)"

definition py_int :: "string \<Rightarrow> int option" where
  "py_int s =
     (case strip s of [] \<Rightarrow> None
      | c # cs \<Rightarrow>
          if c = CHR ''-'' then map_option uminus (parse_unsigned cs)
          else if c = CHR ''+'' then parse_unsigned cs
          else parse_unsigned (c # cs))"

text \<open>\<open>s.split('_')[-1]\<close>: what follows the last underscore, or all of \<open>s\<close>.\<close>

definition last_component :: "string \<Rightarrow> string" where
  "last_component s = rev (takeWhile (\<lambda>c. c \<noteq> CHR ''_'') (rev s))"

text \<open>The decimal digits of a natural number, and the format \<open>{n:0{width}d}\<close>.\<close>

fun digits_of :: "nat \<Rightarrow> string" where
  "digits_of n =
     (if n < 10 then [digit_char n] else digits_of (n div 10) @ [digit_char (n mod 10)])"

declare digits_of.simps [simp del]

definition format_0d :: "nat \<Rightarrow> int \<Rightarrow> string" where
  "format_0d width n =
     (let body = digits_of (nat \<bar>n\<bar>);
          sign = (if n < 0 then [CHR ''-''] else [])
      in sign @ replicate (width - length sign - length body) (CHR ''0'') @ body)"

section \<open>The database: values, rows and the operators of its queries\<close>

text \<open>
  A cell of a loosely typed column holds \<open>NULL\<close>, an integer or text (the column
  \<open>target_days\<close> is declared \<open>INTEGER\<close>, and keeps text that is not a number as
  text). Floating-point cells are not modelled.
\<close>

datatype sqlval = Null | IntV int | TextV string

text \<open>
  The columns of table \<open>requests\<close> that the modelled operations read or write. The
  free-text columns (customer, description, requester, department, team member, comment,
  cost) are carried along by the program without being inspected and are left out.
  \<open>created_date\<close> is a timestamp in seconds, \<open>DATE(created_date)\<close> its day.
\<close>

record request =
  request_id :: int
  custom_id :: string
  service_type :: string
  status :: string
  date_request_received :: date
  target_days :: sqlval
  sent_out_date :: "date option"
  duration_days :: sqlval
  created_date :: int

type_synonym store = "request list"

definition DATE :: "int \<Rightarrow> date" where
  "DATE ts = ts div 86400"

text \<open>
  The comparison \<open>a > b\<close> of a query, used as a condition: with a \<open>NULL\<close> operand it
  does not hold; integers compare by value; an integer is below any text; text
  compares byte by byte.
\<close>

fun sql_gt :: "sqlval \<Rightarrow> sqlval \<Rightarrow> bool" where
  "sql_gt (IntV a) (IntV b) = (a > b)"
| "sql_gt (TextV a) (TextV b) = (a > b)"
| "sql_gt (TextV a) (IntV b) = True"
| "sql_gt _ _ = False"

definition upper_ascii :: "char \<Rightarrow> char" where
  "upper_ascii c =
     (if 97 \<le> (of_char c :: nat) \<and> (of_char c :: nat) \<le> 122
      then char_of ((of_char c :: nat) - 32) else c)"

text \<open>
  \<open>text LIKE pattern\<close>: \<open>%\<close> stands for any run of characters, \<open>_\<close> for any single
  character, and letters match without regard to case.
\<close>

fun sql_like :: "string \<Rightarrow> string \<Rightarrow> bool" where
  "sql_like [] s = (s = [])"
| "sql_like (p # ps) [] = (p = CHR ''%'' \<and> sql_like ps [])"
| "sql_like (p # ps) (c # cs) =
     (if p = CHR ''%'' then sql_like ps (c # cs) \<or> sql_like (p # ps) cs
      else (p = CHR ''_'' \<or> upper_ascii p = upper_ascii c) \<and> sql_like ps cs)"

section \<open>Identifier generator\<close>

definition service_slugs :: "(string \<times> string) list" where
  "service_slugs =
     [(''Internet Service'', ''IS''),
      (''Lease line'', ''LL''),
      (''Dark Fibre'', ''DF''),
      (''Network Monitoring'', ''NM''),
      (''Others - Connectivity (Renewal, Upgrade, IT Device, IP Addresses, Consultation, Support etc)'', ''OC''),
      (''Collocation'', ''CS''),
      (''Cross Connection'', ''CC''),
      (''Collocation & Cross-connect Renewal'', ''CR''),
      (''ECS'', ''EC''),
      (''Disaster Recovery'', ''DR''),
      (''Backup Service'', ''BS''),
      (''Object Storage'', ''OS''),
      (''Email Service'', ''ES''),
      (''Others - Cloud (Renewal, Upgrade of Cloud Resources, IP Address, Licenses etc)'', ''OR''),
      (''Document Management System - EDMS'', ''DM''),
      (''Capacity Building - Training'', ''CB''),
      (''Network Security'', ''NS''),
      (''Security Renewal'', ''SR'')]"

definition get_service_slug :: "string \<Rightarrow> string" where
  "get_service_slug stype =
     (case map_of service_slugs stype of Some slug \<Rightarrow> slug | None \<Rightarrow> ''OT'')"

text \<open>
  The query of \<open>generate_custom_id\<close>: of the custom ids that match the pattern, the
  greatest in the order of the strings, if there is one.
\<close>

definition select_last_custom_id :: "string \<Rightarrow> store \<Rightarrow> string option" where
  "select_last_custom_id pattern store =
     (case filter (sql_like pattern) (map custom_id store) of
        [] \<Rightarrow> None
      | x # xs \<Rightarrow> Some (fold max xs x))"

text \<open>
  \<open>generate_custom_id mmyy stype store\<close>: \<open>mmyy\<close> is the text
  \<open>now.strftime('%m%y')\<close>, the month and the two-digit year of the clock, and
  \<open>stype\<close> the service type.
\<close>

definition generate_custom_id :: "string \<Rightarrow> string \<Rightarrow> store \<Rightarrow> string" where
  "generate_custom_id mmyy stype store =
     (let service_slug = get_service_slug stype;
          prefix = ''GBB_SDA_'' @ mmyy @ ''_'' @ service_slug @ ''_'';
          result = select_last_custom_id (prefix @ ''%'') store;
          next_number =
            (case result of
               Some last_id \<Rightarrow>
                 (case py_int (last_component last_id) of
                    Some last_number \<Rightarrow> last_number + 1
                  | None \<Rightarrow> 1)
             | None \<Rightarrow> 1)
      in prefix @ format_0d 3 next_number)"

section \<open>Request store\<close>

text \<open>
  The fields of the dictionary given to \<open>create\<close> that the modelled columns take;
  \<open>None\<close> for \<open>new_service_type\<close> is a dictionary without that key.
\<close>

record new_request =
  new_service_type :: "string option"
  new_date_request_received :: date
  new_target_days :: sqlval

definition next_rowid :: "store \<Rightarrow> int" where
  "next_rowid store = fold max (map request_id store) 0 + 1"

text \<open>
  \<open>create mmyy today now data store\<close> inserts one row and returns its row id, one more
  than the greatest in the table. The column \<open>custom_id\<close> is declared unique, so
  inserting an id that is already there raises \<open>IntegrityError\<close>. \<open>now\<close> is the
  timestamp the database stamps the row with.
\<close>

definition create :: "string \<Rightarrow> date \<Rightarrow> int \<Rightarrow> new_request \<Rightarrow> store \<Rightarrow> py_error + (int \<times> store)" where
  "create mmyy today now data store =
     (let stype = (case new_service_type data of None \<Rightarrow> ''Internet Service'' | Some s \<Rightarrow> s);
          cid = generate_custom_id mmyy stype store;
          duration = calculate_working_days today (new_date_request_received data) None
      in if cid \<in> set (map custom_id store) then Inl IntegrityError
         else
           let rid = next_rowid store
           in Inr (rid,
                   store @ [\<lparr> request_id = rid, custom_id = cid, service_type = stype,
                              status = ''in_progress'',
                              date_request_received = new_date_request_received data,
                              target_days = new_target_days data,
                              sent_out_date = None,
                              duration_days = IntV duration,
                              created_date = now \<rparr>]))"

text \<open>\<open>n\<close> successive calls of \<open>create\<close> with the same dictionary, each on the table the one before left.\<close>

fun create_n :: "nat \<Rightarrow> string \<Rightarrow> date \<Rightarrow> int \<Rightarrow> new_request \<Rightarrow> store \<Rightarrow> py_error + store" where
  "create_n 0 mmyy today now data store = Inr store"
| "create_n (Suc n) mmyy today now data store =
     (case create mmyy today now data store of
        Inl e \<Rightarrow> Inl e
      | Inr (rid, store') \<Rightarrow> create_n n mmyy today now data store')"

definition status_order :: "(string \<times> int) list" where
  "status_order =
     [(''Closed Request'', 1),
      (''Pending with Presales'', 2),
      (''Pending review'', 3),
      (''Pending approval'', 4),
      (''in_progress'', 5)]"

definition get_status_sort_order :: "string \<Rightarrow> int" where
  "get_status_sort_order st = (case map_of status_order st of Some n \<Rightarrow> n | None \<Rightarrow> 999)"

text \<open>
  \<open>get_all today date_from date_to overdue_only store\<close>. The rows the query selects
  come back newest first (rows created at the same instant keep their table order, which
  the database leaves open); then the loop replaces the duration of every row that is
  not closed. Nothing is written to the table, so the function returns rows only.
\<close>

definition get_all :: "date \<Rightarrow> date option \<Rightarrow> date option \<Rightarrow> bool \<Rightarrow> store \<Rightarrow> request list" where
  "get_all today date_from date_to overdue_only store =
     (let conditions = (\<lambda>r.
            (case date_from of None \<Rightarrow> True | Some f \<Rightarrow> date_request_received r \<ge> f) \<and>
            (case date_to of None \<Rightarrow> True | Some t \<Rightarrow> date_request_received r \<le> t) \<and>
            (if overdue_only
             then target_days r \<noteq> Null \<and> sql_gt (duration_days r) (target_days r) \<and>
                  status r \<noteq> ''Closed Request''
             else True));
          rows = sort_key (\<lambda>r. - created_date r) (filter conditions store)
      in map (\<lambda>request_dict.
                if status request_dict \<noteq> ''Closed Request''
                then request_dict \<lparr> duration_days :=
                       IntV (calculate_working_days today (date_request_received request_dict) None) \<rparr>
                else request_dict) rows)"

definition get_by_id :: "int \<Rightarrow> store \<Rightarrow> request option" where
  "get_by_id rid store = find (\<lambda>r. request_id r = rid) store"

text \<open>
  The dictionary given to \<open>update\<close>: for each modelled column, \<open>None\<close> when the key is
  absent and \<open>Some v\<close> when it is there. The value of key \<open>sent_out_date\<close> may itself
  be null.
\<close>

record request_update =
  upd_status :: "string option"
  upd_sent_out_date :: "date option option"
  upd_date_request_received :: "date option"
  upd_target_days :: "sqlval option"
  upd_duration_days :: "sqlval option"

text \<open>\<open>data.get('sent_out_date')\<close>: the date under the key, if the key is there and not null.\<close>

definition get_sent_out_date :: "request_update \<Rightarrow> date option" where
  "get_sent_out_date data = (case upd_sent_out_date data of Some (Some d) \<Rightarrow> Some d | _ \<Rightarrow> None)"

text \<open>The \<open>UPDATE ... SET\<close> statement on one row: each key of the dictionary sets its column.\<close>

definition set_fields :: "request_update \<Rightarrow> request \<Rightarrow> request" where
  "set_fields data r =
     r \<lparr> status := (case upd_status data of Some v \<Rightarrow> v | None \<Rightarrow> status r),
         sent_out_date := (case upd_sent_out_date data of Some v \<Rightarrow> v | None \<Rightarrow> sent_out_date r),
         date_request_received :=
           (case upd_date_request_received data of Some v \<Rightarrow> v | None \<Rightarrow> date_request_received r),
         target_days := (case upd_target_days data of Some v \<Rightarrow> v | None \<Rightarrow> target_days r),
         duration_days := (case upd_duration_days data of Some v \<Rightarrow> v | None \<Rightarrow> duration_days r) \<rparr>"

definition no_fields :: "request_update \<Rightarrow> bool" where
  "no_fields data =
     (upd_status data = None \<and> upd_sent_out_date data = None \<and>
      upd_date_request_received data = None \<and> upd_target_days data = None \<and>
      upd_duration_days data = None)"

text \<open>
  \<open>update today rid data store\<close> returns the success flag and the new table. A
  dictionary with no column at all makes a malformed statement, which the database
  refuses (\<open>OperationalError\<close>). The activity log it also writes is a separate table
  that no modelled operation reads, and is left out.
\<close>

definition update :: "date \<Rightarrow> int \<Rightarrow> request_update \<Rightarrow> store \<Rightarrow> py_error + (bool \<times> store)" where
  "update today rid data store =
     (case get_by_id rid store of
        None \<Rightarrow> Inr (False, store)
      | Some current_request \<Rightarrow>
          let data1 =
                (if upd_status data = Some ''Closed Request'' \<and> get_sent_out_date data = None
                 then data \<lparr> upd_sent_out_date := Some (Some today) \<rparr>
                 else data);
              data2 =
                (case upd_date_request_received data1 of
                   None \<Rightarrow> data1
                 | Some received \<Rightarrow>
                     let end_date = (if upd_status data1 = Some ''Closed Request''
                                     then get_sent_out_date data1 else None)
                     in data1 \<lparr> upd_duration_days :=
                                  Some (IntV (calculate_working_days today received end_date)) \<rparr>)
          in if no_fields data2 then Inl OperationalError
             else Inr (True, map (\<lambda>r. if request_id r = rid then set_fields data2 r else r) store))"

subsection \<open>Dashboard statistics\<close>

text \<open>Truth value of a cell in a condition of the program: null, zero and empty text are false.\<close>

fun truthy :: "sqlval \<Rightarrow> bool" where
  "truthy Null = False"
| "truthy (IntV n) = (n \<noteq> 0)"
| "truthy (TextV s) = (s \<noteq> [])"

text \<open>
  The body of the \<open>try\<close> block of \<open>get_stats\<close>: \<open>True\<close> when the counter is
  incremented. Converting text that is no integer raises \<open>ValueError\<close>; comparing
  something that is not an integer with an integer raises \<open>TypeError\<close>.
\<close>

definition overdue_try :: "sqlval \<Rightarrow> sqlval \<Rightarrow> py_error + bool" where
  "overdue_try current_duration tdays =
     (case (case tdays of
              TextV s \<Rightarrow> (case py_int s of None \<Rightarrow> Inl ValueError | Some n \<Rightarrow> Inr n)
            | IntV n \<Rightarrow> Inr n
            | Null \<Rightarrow> Inl TypeError) of
        Inl e \<Rightarrow> Inl e
      | Inr target_days_int \<Rightarrow>
          if target_days_int > 0
          then (case current_duration of
                  IntV d \<Rightarrow> Inr (d > target_days_int)
                | _ \<Rightarrow> Inl TypeError)
          else Inr False)"

fun overdue_loop :: "date \<Rightarrow> request list \<Rightarrow> nat \<Rightarrow> py_error + nat" where
  "overdue_loop today [] n = Inr n"
| "overdue_loop today (request # rest) n =
     (let current_duration =
            (if status request \<noteq> ''Closed Request''
             then IntV (calculate_working_days today (date_request_received request) None)
             else duration_days request)
      in if truthy (target_days request)
         then (case overdue_try current_duration (target_days request) of
                 Inr b \<Rightarrow> overdue_loop today rest (if b then n + 1 else n)
               | Inl e \<Rightarrow>
                   if e = ValueError \<or> e = TypeError then overdue_loop today rest n
                   else Inl e)
         else overdue_loop today rest n)"

record stats =
  total :: nat
  stats_in_progress :: nat
  pending :: nat
  closed :: nat
  stats_overdue :: nat
  closed_week :: nat

definition status_count :: "store \<Rightarrow> string \<Rightarrow> nat" where
  "status_count store st = length (filter (\<lambda>r. status r = st) store)"

definition get_stats :: "date \<Rightarrow> store \<Rightarrow> py_error + stats" where
  "get_stats today store =
     (case overdue_loop today (filter (\<lambda>r. target_days r \<noteq> Null) store) 0 of
        Inl e \<Rightarrow> Inl e
      | Inr n \<Rightarrow>
          Inr \<lparr> total = length store,
                stats_in_progress = status_count store ''in_progress'',
                pending = sum_list (map (status_count store)
                            [''Pending with Presales'', ''Pending review'', ''Pending approval'']),
                closed = status_count store ''Closed Request'',
                stats_overdue = n,
                closed_week = length (filter (\<lambda>r. status r = ''Closed Request'' \<and>
                                (case sent_out_date r of None \<Rightarrow> False | Some d \<Rightarrow> d \<ge> today - 7)) store) \<rparr>)"

section \<open>Report engine\<close>

text \<open>
  The scalar counts and the request list of a report. The activity list and the
  breakdowns by status, team member, type and department are computed from other
  queries and are left out.
\<close>

record report =
  created :: nat
  completed :: nat
  in_progress :: nat
  overdue :: nat
  requests :: "request list"

text \<open>\<open>DATE(sent_out_date) BETWEEN lo AND hi\<close>; it does not hold for a null date.\<close>

definition sent_out_between :: "date \<Rightarrow> date \<Rightarrow> request \<Rightarrow> bool" where
  "sent_out_between lo hi r = (case sent_out_date r of None \<Rightarrow> False | Some d \<Rightarrow> lo \<le> d \<and> d \<le> hi)"

definition get_daily_report :: "date \<Rightarrow> store \<Rightarrow> report" where
  "get_daily_report target_date store =
     \<lparr> created = length (filter (\<lambda>r. DATE (created_date r) = target_date) store),
       completed = length (filter (\<lambda>r. sent_out_date r = Some target_date \<and>
                      status r = ''Closed Request'') store),
       in_progress = length (filter (\<lambda>r. status r = ''in_progress'') store),
       overdue = length (filter (\<lambda>r. target_days r \<noteq> Null \<and>
                      sql_gt (duration_days r) (target_days r)) store),
       requests = sort_key (\<lambda>x. get_status_sort_order (status x))
                    (filter (\<lambda>r. status r \<noteq> ''Closed Request'' \<or>
                       sent_out_date r = Some target_date) store) \<rparr>"

definition get_weekly_report :: "int \<Rightarrow> int \<Rightarrow> store \<Rightarrow> report" where
  "get_weekly_report year week store =
     (let jan_1 = ymd2ord year 1 1;
          week_start = jan_1 + 7 * (week - 1) - weekday jan_1;
          week_end = week_start + 6
      in \<lparr> created = length (filter (\<lambda>r. week_start \<le> DATE (created_date r) \<and>
                         DATE (created_date r) \<le> week_end) store),
            completed = length (filter (\<lambda>r. sent_out_between week_start week_end r \<and>
                           status r = ''Closed Request'') store),
            in_progress = length (filter (\<lambda>r. status r = ''in_progress'') store),
            overdue = length (filter (\<lambda>r. target_days r \<noteq> Null \<and>
                           sql_gt (duration_days r) (target_days r)) store),
            requests = sort_key (\<lambda>x. get_status_sort_order (status x))
                         (filter (\<lambda>r. status r \<noteq> ''Closed Request'' \<or>
                            sent_out_between week_start week_end r) store) \<rparr>)"

text \<open>\<open>monthrange\<close> refuses a month outside 1 to 12 (\<open>IllegalMonthError\<close>).\<close>

definition get_monthly_report :: "int \<Rightarrow> int \<Rightarrow> store \<Rightarrow> py_error + report" where
  "get_monthly_report year month store =
     (if month < 1 \<or> 12 < month then Inl IllegalMonthError
      else
        let start_date = ymd2ord year month 1;
            last_day = days_in_month year month;
            end_date = ymd2ord year month last_day
        in Inr \<lparr> created = length (filter (\<lambda>r. start_date \<le> DATE (created_date r) \<and>
                                DATE (created_date r) \<le> end_date) store),
                  completed = length (filter (\<lambda>r. sent_out_between start_date end_date r \<and>
                                  status r = ''Closed Request'') store),
                  in_progress = length (filter (\<lambda>r. status r = ''in_progress'') store),
                  overdue = length (filter (\<lambda>r. target_days r \<noteq> Null \<and>
                                  sql_gt (duration_days r) (target_days r)) store),
                  requests = sort_key (\<lambda>x. get_status_sort_order (status x))
                               (filter (\<lambda>r. status r \<noteq> ''Closed Request'' \<or>
                                  sent_out_between start_date end_date r) store) \<rparr>)"

section \<open>Renderers\<close>

text \<open>
  Of the two renderers, the statements that colour the rows of the request table are
  modelled: the style commands of the document and the fills of the spreadsheet cells.
  The text of the cells, the summary block and the legend are left out.

  A colour of the document library: red, green and blue as fractions of one. An entry
  of the colour table holds the same colour in three notations; the \<open>format_type\<close>
  argument of \<open>get_status_color\<close> selects the field, so \<open>get_status_color(s, 'hex')\<close>
  is \<open>hex (get_status_color s)\<close>.
\<close>

datatype Color = Color rat rat rat

record color_entry =
  hex :: string
  rgb :: "nat \<times> nat \<times> nat"
  reportlab :: Color

definition colors_map :: "(string \<times> color_entry) list" where
  "colors_map =
     [(''in_progress'',
         \<lparr> hex = ''#FEF3C7'', rgb = (254, 243, 199),
           reportlab = Color (254 / 255) (243 / 255) (199 / 255) \<rparr>),
      (''Pending with Presales'',
         \<lparr> hex = ''#E5E7EB'', rgb = (229, 231, 235),
           reportlab = Color (229 / 255) (231 / 255) (235 / 255) \<rparr>),
      (''Pending review'',
         \<lparr> hex = ''#E9D5FF'', rgb = (233, 213, 255),
           reportlab = Color (233 / 255) (213 / 255) (255 / 255) \<rparr>),
      (''Pending approval'',
         \<lparr> hex = ''#FED7AA'', rgb = (254, 215, 170),
           reportlab = Color (254 / 255) (215 / 255) (170 / 255) \<rparr>),
      (''Closed Request'',
         \<lparr> hex = ''#DCFCE7'', rgb = (220, 252, 231),
           reportlab = Color (220 / 255) (252 / 255) (231 / 255) \<rparr>)]"

definition default_color :: color_entry where
  "default_color = \<lparr> hex = ''#FFFFFF'', rgb = (255, 255, 255), reportlab = Color 1 1 1 \<rparr>"

definition get_status_color :: "string \<Rightarrow> color_entry" where
  "get_status_color st = (case map_of colors_map st of Some e \<Rightarrow> e | None \<Rightarrow> default_color)"

text \<open>
  \<open>a > b\<close> in the program: two integers or two strings compare, any other pair raises
  \<open>TypeError\<close>.
\<close>

fun py_gt :: "sqlval \<Rightarrow> sqlval \<Rightarrow> py_error + bool" where
  "py_gt (IntV a) (IntV b) = Inr (a > b)"
| "py_gt (TextV a) (TextV b) = Inr (a > b)"
| "py_gt _ _ = Inl TypeError"

definition is_overdue :: "request \<Rightarrow> py_error + bool" where
  "is_overdue req =
     (if truthy (target_days req) then py_gt (duration_days req) (target_days req)
      else Inr False)"

text \<open>
  The document renderer: the style commands it adds for the rows of the request table,
  row \<open>i\<close> of the table being the \<open>i\<close>-th request (row 0 is the header).
\<close>

datatype style_cmd = BACKGROUND "int \<times> int" "int \<times> int" Color

fun pdf_row_styles :: "int \<Rightarrow> request list \<Rightarrow> py_error + style_cmd list" where
  "pdf_row_styles i [] = Inr []"
| "pdf_row_styles i (req # reqs) =
     (let status_color = reportlab (get_status_color (status req))
      in case is_overdue req of
           Inl e \<Rightarrow> Inl e
         | Inr ov \<Rightarrow>
             (case pdf_row_styles (i + 1) reqs of
                Inl e \<Rightarrow> Inl e
              | Inr rest \<Rightarrow>
                  Inr (BACKGROUND (0, i) (-1, i) status_color #
                       (if ov then [BACKGROUND (8, i) (8, i) (Color (254 / 255) (202 / 255) (202 / 255))]
                        else []) @ rest)))"

definition create_report_pdf :: "report \<Rightarrow> py_error + style_cmd list" where
  "create_report_pdf report_data = pdf_row_styles 1 (requests report_data)"

text \<open>
  The spreadsheet renderer: the fill of each of the eleven cells of a data row,
  \<open>None\<close> for a cell that is given no fill.
\<close>

fun excel_cells :: "request \<Rightarrow> nat list \<Rightarrow> py_error + string option list" where
  "excel_cells req [] = Inr []"
| "excel_cells req (col # cols) =
     (let fill1 = (if status req \<noteq> []
                   then Some (filter (\<lambda>c. c \<noteq> CHR ''#'') (hex (get_status_color (status req))))
                   else None)
      in case is_overdue req of
           Inl e \<Rightarrow> Inl e
         | Inr ov \<Rightarrow>
             (case excel_cells req cols of
                Inl e \<Rightarrow> Inl e
              | Inr rest \<Rightarrow> Inr ((if ov \<and> col = 9 then Some ''FECACA'' else fill1) # rest)))"

fun excel_rows :: "request list \<Rightarrow> py_error + string option list list" where
  "excel_rows [] = Inr []"
| "excel_rows (req # reqs) =
     (case excel_cells req [1 ..< 12] of
        Inl e \<Rightarrow> Inl e
      | Inr cells \<Rightarrow>
          (case excel_rows reqs of
             Inl e \<Rightarrow> Inl e
           | Inr rest \<Rightarrow> Inr (cells # rest)))"

definition create_report_excel :: "report \<Rightarrow> py_error + string option list list" where
  "create_report_excel report_data = excel_rows (requests report_data)"

subsection \<open>What the two outputs show\<close>

text \<open>
  To compare the two renderers, the meaning their libraries give to the outputs. In the
  document table the last \<open>BACKGROUND\<close> command whose range holds a cell decides its
  colour; columns and rows count from 0, and a negative index counts from the end
  (\<open>ncols\<close> columns, \<open>nrows\<close> rows). In the spreadsheet a fill is six hexadecimal
  digits, two each for red, green and blue out of 255, and a cell without fill shows
  the white of the sheet.
\<close>

definition resolve_index :: "int \<Rightarrow> int \<Rightarrow> int" where
  "resolve_index n k = (if k < 0 then n + k else k)"

fun covers :: "int \<Rightarrow> int \<Rightarrow> style_cmd \<Rightarrow> int \<times> int \<Rightarrow> bool" where
  "covers ncols nrows (BACKGROUND (c1, r1) (c2, r2) c) (col, row) =
     (resolve_index ncols c1 \<le> col \<and> col \<le> resolve_index ncols c2 \<and>
      resolve_index nrows r1 \<le> row \<and> row \<le> resolve_index nrows r2)"

fun cmd_color :: "style_cmd \<Rightarrow> Color" where
  "cmd_color (BACKGROUND a b c) = c"

definition pdf_cell_color :: "int \<Rightarrow> int \<Rightarrow> style_cmd list \<Rightarrow> int \<times> int \<Rightarrow> Color option" where
  "pdf_cell_color ncols nrows cmds cell =
     fold (\<lambda>cmd shown. if covers ncols nrows cmd cell then Some (cmd_color cmd) else shown)
       cmds None"

definition hex_digit :: "char \<Rightarrow> nat option" where
  "hex_digit c =
     (let n = (of_char c :: nat)
      in if 48 \<le> n \<and> n \<le> 57 then Some (n - 48)
         else if 65 \<le> n \<and> n \<le> 70 then Some (n - 55)
         else if 97 \<le> n \<and> n \<le> 102 then Some (n - 87)
         else None)"

definition hex_byte :: "char \<Rightarrow> char \<Rightarrow> rat option" where
  "hex_byte a b =
     (case (hex_digit a, hex_digit b) of
        (Some x, Some y) \<Rightarrow> Some (of_nat (16 * x + y) / 255)
      | _ \<Rightarrow> None)"

definition excel_cell_color :: "string option \<Rightarrow> Color option" where
  "excel_cell_color fill =
     (case fill of
        None \<Rightarrow> Some (Color 1 1 1)
      | Some [r1, r2, g1, g2, b1, b2] \<Rightarrow>
          (case (hex_byte r1 r2, hex_byte g1 g2, hex_byte b1 b2) of
             (Some r, Some g, Some b) \<Rightarrow> Some (Color r g b)
           | _ \<Rightarrow> None)
      | Some _ \<Rightarrow> None)"

section \<open>Example rows\<close>

text \<open>
  A row with the given id, custom id, status, date received, target, close date and
  stored duration, created at midnight of the day it was received.
\<close>

definition example_request ::
  "int \<Rightarrow> string \<Rightarrow> string \<Rightarrow> date \<Rightarrow> sqlval \<Rightarrow> date option \<Rightarrow> sqlval \<Rightarrow> request" where
  "example_request rid cid st received tdays sent dur =
     \<lparr> request_id = rid, custom_id = cid, service_type = ''Internet Service'', status = st,
       date_request_received = received, target_days = tdays, sent_out_date = sent,
       duration_days = dur, created_date = received * 86400 \<rparr>"

text \<open>
  Three requests received on Monday 2024-01-01 (day 738886): one in progress, one closed
  on Friday 2024-01-05, one closed on Friday 2024-03-01 (day 738946).
\<close>

definition example_store :: store where
  "example_store =
     [example_request 1 ''GBB_SDA_0124_IS_001'' ''in_progress'' 738886 (IntV 3) None (IntV 1),
      example_request 2 ''GBB_SDA_0124_IS_002'' ''Closed Request'' 738886 (IntV 3)
        (Some 738890) (IntV 5),
      example_request 3 ''GBB_SDA_0124_IS_003'' ''Closed Request'' 738886 (TextV ''N/A'')
        (Some 738946) (IntV 45)]"

section \<open>Properties of the working-day calculator\<close>

lemma weekdays_finite: "finite {d. a \<le> d \<and> d \<le> b \<and> weekday d < 5}"
proof -
  have "{d. a \<le> d \<and> d \<le> b \<and> weekday d < 5} \<subseteq> {a..b}" by auto
  then show ?thesis by (rule finite_subset) simp
qed

lemma weekdays_step:
  assumes "a \<le> b"
  shows "{d. a \<le> d \<and> d \<le> b \<and> weekday d < 5} =
         (if weekday a < 5 then {a} else {}) \<union> {d. a + 1 \<le> d \<and> d \<le> b \<and> weekday d < 5}"
  using assms by (auto simp: order_le_less)

lemma working_days_loop_count:
  "working_days_loop c e w = w + int (card {d. c \<le> d \<and> d \<le> e \<and> weekday d < 5})"
proof (induction c e w rule: working_days_loop.induct)
  case (1 c e w)
  show ?case
  proof (cases "c \<le> e")
    case False
    then have "{d. c \<le> d \<and> d \<le> e \<and> weekday d < 5} = {}" by auto
    then have "card {d. c \<le> d \<and> d \<le> e \<and> weekday d < 5} = 0" by (simp only: card.empty)
    with False show ?thesis by (simp add: working_days_loop.simps [of c e w])
  next
    case True
    let ?rest = "{d. c + 1 \<le> d \<and> d \<le> e \<and> weekday d < 5}"
    have fin: "finite ?rest" by (rule weekdays_finite)
    have notin: "c \<notin> ?rest" by simp
    have step: "working_days_loop c e w =
        working_days_loop (c + 1) e (if weekday c < 5 then w + 1 else w)"
      using True by (simp add: working_days_loop.simps [of c e w])
    have ih: "working_days_loop (c + 1) e (if weekday c < 5 then w + 1 else w) =
        (if weekday c < 5 then w + 1 else w) + int (card ?rest)"
      using "1.IH" [OF True] .
    show ?thesis
    proof (cases "weekday c < 5")
      case wd: True
      have "{d. c \<le> d \<and> d \<le> e \<and> weekday d < 5} = insert c ?rest"
        using weekdays_step [OF True] wd by simp
      then have "card {d. c \<le> d \<and> d \<le> e \<and> weekday d < 5} = Suc (card ?rest)"
        using fin notin by simp
      with step ih wd show ?thesis by simp
    next
      case wd: False
      have "{d. c \<le> d \<and> d \<le> e \<and> weekday d < 5} = ?rest"
        using weekdays_step [OF True] wd by simp
      with step ih wd show ?thesis by simp
    qed
  qed
qed

lemma calculate_working_days_closed_form:
  "calculate_working_days today start end_date =
     (let e = (case end_date of None \<Rightarrow> today | Some x \<Rightarrow> x)
      in if start = e then 1
         else 1 + int (card {d. start < d \<and> d \<le> e \<and> weekday d < 5}))"
proof -
  have "{d. start + 1 \<le> d \<and> d \<le> e \<and> weekday d < 5} = {d. start < d \<and> d \<le> e \<and> weekday d < 5}"
    for e by auto
  then show ?thesis
    by (simp add: calculate_working_days_def Let_def working_days_loop_count)
qed

lemma date_2024_01_01: "ymd2ord 2024 1 1 = 738886"
  by (simp add: ymd2ord_def days_before_year_def days_before_month_def DAYS_BEFORE_MONTH_def)

lemma date_2024_01_07: "ymd2ord 2024 1 7 = 738892"
  by (simp add: ymd2ord_def days_before_year_def days_before_month_def DAYS_BEFORE_MONTH_def)

lemma working_days_monday_to_sunday:
  "calculate_working_days today 738886 (Some 738892) = 5"
  by (simp add: calculate_working_days_def working_days_loop.simps weekday_def)

text \<open>
  C1. For dates \<open>start \<le> e\<close>, where \<open>e\<close> is the end date given or, without one,
  today: the result is 1 when both are the same day, and otherwise 1 plus the number of
  days from Monday to Friday among the days after \<open>start\<close> up to and including \<open>e\<close>.
  The result is at least 1, and from Monday 2024-01-01 to Sunday 2024-01-07 it is 5.
\<close>

theorem C1_working_days:
  assumes "e = (case end_date of None \<Rightarrow> today | Some x \<Rightarrow> x)" and "start \<le> e"
  shows "calculate_working_days today start end_date =
           (if start = e then 1
            else 1 + int (card {d. start < d \<and> d \<le> e \<and> weekday d < 5})) \<and>
         1 \<le> calculate_working_days today start end_date \<and>
         calculate_working_days today (ymd2ord 2024 1 1) (Some (ymd2ord 2024 1 7)) = 5"
proof -
  have form: "calculate_working_days today start end_date =
      (if start = e then 1 else 1 + int (card {d. start < d \<and> d \<le> e \<and> weekday d < 5}))"
    using assms(1) by (simp add: calculate_working_days_closed_form)
  then have "1 \<le> calculate_working_days today start end_date" by simp
  moreover have "calculate_working_days today (ymd2ord 2024 1 1) (Some (ymd2ord 2024 1 7)) = 5"
    by (simp only: date_2024_01_01 date_2024_01_07 working_days_monday_to_sunday)
  ultimately show ?thesis using form by simp
qed

theorem C1_working_days_witness:
  "calculate_working_days 738900 738886 (Some 738890) =
     1 + int (card {d. 738886 < d \<and> d \<le> 738890 \<and> weekday d < 5}) \<and>
   1 \<le> calculate_working_days 738900 738886 (Some 738890) \<and>
   calculate_working_days 738900 738893 None =
     1 + int (card {d. 738893 < d \<and> d \<le> 738900 \<and> weekday d < 5})"
  using C1_working_days [where e = 738890 and end_date = "Some 738890" and today = 738900 and start = 738886]
        C1_working_days [where e = 738900 and end_date = None and today = 738900 and start = 738893]
  by simp

text \<open>
  C9 as the specification states it: with the end date before the start date the
  calculator fails. It does not: from Sunday 2024-01-07 back to Monday 2024-01-01 it
  returns the count 1.
\<close>

theorem C9_reversed_range_counterexample:
  "calculate_working_days (ymd2ord 2024 1 7) (ymd2ord 2024 1 7) (Some (ymd2ord 2024 1 1)) = 1"
  by (simp add: date_2024_01_01 date_2024_01_07 calculate_working_days_def
        working_days_loop.simps)

text \<open>
  C9, amended. When the end date (the one given or, without one, today) is before the
  start date, the calculator returns 1: the loop body never runs, and no error is
  raised.
\<close>

theorem C9_reversed_range_returns_one:
  assumes "e = (case end_date of None \<Rightarrow> today | Some x \<Rightarrow> x)" and "e < start"
  shows "calculate_working_days today start end_date = 1"
proof -
  from assms(2) have "{d. start < d \<and> d \<le> e \<and> weekday d < 5} = {}" by auto
  then have "card {d. start < d \<and> d \<le> e \<and> weekday d < 5} = 0" by (simp only: card.empty)
  with assms show ?thesis by (simp add: calculate_working_days_closed_form)
qed

theorem C9_reversed_range_returns_one_witness:
  "calculate_working_days 738900 738892 (Some 738886) = 1 \<and>
   calculate_working_days 738886 738892 None = 1"
  using C9_reversed_range_returns_one [where e = 738886 and end_date = "Some 738886" and today = 738900 and start = 738892]
        C9_reversed_range_returns_one [where e = 738886 and end_date = None and today = 738886 and start = 738892]
  by simp

section \<open>Properties of the report engine\<close>

lemma get_status_sort_order_values:
  "get_status_sort_order ''Closed Request'' = 1"
  "get_status_sort_order ''Pending with Presales'' = 2"
  "get_status_sort_order ''Pending review'' = 3"
  "get_status_sort_order ''Pending approval'' = 4"
  "get_status_sort_order ''in_progress'' = 5"
  by (simp_all add: get_status_sort_order_def status_order_def)

lemma get_status_sort_order_other:
  assumes "st \<noteq> ''Closed Request''" "st \<noteq> ''Pending with Presales''"
    "st \<noteq> ''Pending review''" "st \<noteq> ''Pending approval''" "st \<noteq> ''in_progress''"
  shows "get_status_sort_order st = 999"
  using assms by (simp add: get_status_sort_order_def status_order_def)

lemma sorted_key_precedes:
  assumes srt: "sorted (map f rs)"
    and i: "i < length rs" and j: "j < length rs"
    and lt: "f (rs ! j) < f (rs ! i)"
  shows "j < i"
proof (rule ccontr)
  assume "\<not> j < i"
  then have "i \<le> j" by simp
  with srt j have "map f rs ! i \<le> map f rs ! j"
    by (simp add: sorted_iff_nth_mono del: nth_map)
  with i j have "f (rs ! i) \<le> f (rs ! j)" by simp
  with lt show False by simp
qed

text \<open>
  What the last two statements of every report function do to the table: select the
  rows that satisfy the condition, then sort them by status priority.
\<close>

lemma sorted_selection:
  fixes P :: "request \<Rightarrow> bool" and store :: store
  assumes rs: "rs = sort_key (\<lambda>x. get_status_sort_order (status x)) (filter P store)"
  shows "mset rs = filter_mset P (mset store) \<and>
         sorted (map (\<lambda>x. get_status_sort_order (status x)) rs) \<and>
         (\<forall>i j. i < length rs \<and> j < length rs \<and> status (rs ! i) = ''in_progress'' \<and>
                status (rs ! j) = ''Closed Request'' \<longrightarrow> j < i)"
proof -
  have ms: "mset rs = filter_mset P (mset store)" by (simp add: rs)
  have srt: "sorted (map (\<lambda>x. get_status_sort_order (status x)) rs)"
    by (simp add: rs sorted_sort_key)
  have "j < i"
    if "i < length rs" "j < length rs"
      "status (rs ! i) = ''in_progress''" "status (rs ! j) = ''Closed Request''" for i j
    using sorted_key_precedes [OF srt that(1,2)] that(3,4)
    by (simp add: get_status_sort_order_values)
  with ms srt show ?thesis by blast
qed

lemma week_start_is_monday:
  "weekday (ymd2ord year 1 1 + 7 * (week - 1) - weekday (ymd2ord year 1 1)) = 0"
  unfolding weekday_def by presburger

text \<open>
  C2. In the daily, the weekly and the monthly report the request list holds exactly
  the rows of the table that are not closed together with those whose close date lies
  in the period (the day; the Monday-to-Sunday week the function computes; the month
  from its first to its last day), each as often as in the table. The list is in
  ascending order of status priority, where the priorities are 1 to 5 for the five
  statuses and 999 for any other, so that every closed row stands before every row in
  progress.
\<close>

theorem C2_report_working_set:
  fixes store :: store and target_date :: date and year week month :: int
  assumes month: "1 \<le> month" "month \<le> 12"
  shows
    "(let rs = requests (get_daily_report target_date store)
      in mset rs = filter_mset (\<lambda>r. status r \<noteq> ''Closed Request'' \<or>
                     sent_out_date r = Some target_date) (mset store) \<and>
         sorted (map (\<lambda>x. get_status_sort_order (status x)) rs) \<and>
         (\<forall>i j. i < length rs \<and> j < length rs \<and> status (rs ! i) = ''in_progress'' \<and>
                status (rs ! j) = ''Closed Request'' \<longrightarrow> j < i)) \<and>
     (let week_start = ymd2ord year 1 1 + 7 * (week - 1) - weekday (ymd2ord year 1 1);
          rs = requests (get_weekly_report year week store)
      in weekday week_start = 0 \<and>
         mset rs = filter_mset (\<lambda>r. status r \<noteq> ''Closed Request'' \<or>
                     (\<exists>d. sent_out_date r = Some d \<and> week_start \<le> d \<and> d \<le> week_start + 6))
                     (mset store) \<and>
         sorted (map (\<lambda>x. get_status_sort_order (status x)) rs) \<and>
         (\<forall>i j. i < length rs \<and> j < length rs \<and> status (rs ! i) = ''in_progress'' \<and>
                status (rs ! j) = ''Closed Request'' \<longrightarrow> j < i)) \<and>
     (\<exists>rep. get_monthly_report year month store = Inr rep \<and>
        (let rs = requests rep
         in mset rs = filter_mset (\<lambda>r. status r \<noteq> ''Closed Request'' \<or>
                        (\<exists>d. sent_out_date r = Some d \<and> ymd2ord year month 1 \<le> d \<and>
                             d \<le> ymd2ord year month (days_in_month year month)))
                        (mset store) \<and>
            sorted (map (\<lambda>x. get_status_sort_order (status x)) rs) \<and>
            (\<forall>i j. i < length rs \<and> j < length rs \<and> status (rs ! i) = ''in_progress'' \<and>
                   status (rs ! j) = ''Closed Request'' \<longrightarrow> j < i))) \<and>
     get_status_sort_order ''Closed Request'' = 1 \<and>
     get_status_sort_order ''Pending with Presales'' = 2 \<and>
     get_status_sort_order ''Pending review'' = 3 \<and>
     get_status_sort_order ''Pending approval'' = 4 \<and>
     get_status_sort_order ''in_progress'' = 5 \<and>
     (\<forall>st. st \<notin> {''Closed Request'', ''Pending with Presales'', ''Pending review'',
                  ''Pending approval'', ''in_progress''} \<longrightarrow> get_status_sort_order st = 999)"
proof -
  let ?key = "\<lambda>x. get_status_sort_order (status x)"
  have between: "sent_out_between lo hi r = (\<exists>d. sent_out_date r = Some d \<and> lo \<le> d \<and> d \<le> hi)"
    for lo hi r by (simp add: sent_out_between_def split: option.split)
  have daily: "requests (get_daily_report target_date store) =
      sort_key ?key
        (filter (\<lambda>r. status r \<noteq> ''Closed Request'' \<or> sent_out_date r = Some target_date) store)"
    by (simp add: get_daily_report_def)
  let ?ws = "ymd2ord year 1 1 + 7 * (week - 1) - weekday (ymd2ord year 1 1)"
  have weekly: "requests (get_weekly_report year week store) =
      sort_key ?key
        (filter (\<lambda>r. status r \<noteq> ''Closed Request'' \<or>
           (\<exists>d. sent_out_date r = Some d \<and> ?ws \<le> d \<and> d \<le> ?ws + 6)) store)"
    by (simp add: get_weekly_report_def Let_def between)
  obtain rep where rep: "get_monthly_report year month store = Inr rep"
    and monthly: "requests rep =
      sort_key ?key
        (filter (\<lambda>r. status r \<noteq> ''Closed Request'' \<or>
           (\<exists>d. sent_out_date r = Some d \<and> ymd2ord year month 1 \<le> d \<and>
                d \<le> ymd2ord year month (days_in_month year month))) store)"
    using month by (simp add: get_monthly_report_def Let_def between)
  have other: "\<forall>st. st \<notin> {''Closed Request'', ''Pending with Presales'', ''Pending review'',
      ''Pending approval'', ''in_progress''} \<longrightarrow> get_status_sort_order st = 999"
    using get_status_sort_order_other by blast
  show ?thesis
    unfolding Let_def
    using sorted_selection [OF daily] sorted_selection [OF weekly] sorted_selection [OF monthly] rep
      week_start_is_monday [of year week] get_status_sort_order_values other
    by blast
qed

theorem C2_report_working_set_witness:
  "(1::int) \<le> 1 \<and> (1::int) \<le> 12 \<and>
   map request_id (requests (get_daily_report 738890 example_store)) = [2, 1] \<and>
   mset (requests (get_daily_report 738890 example_store)) =
     filter_mset (\<lambda>r. status r \<noteq> ''Closed Request'' \<or> sent_out_date r = Some 738890)
       (mset example_store) \<and>
   sorted (map (\<lambda>x. get_status_sort_order (status x))
     (requests (get_weekly_report 2024 1 example_store))) \<and>
   (\<exists>rep. get_monthly_report 2024 1 example_store = Inr rep \<and>
      (\<forall>i j. i < length (requests rep) \<and> j < length (requests rep) \<and>
         status (requests rep ! i) = ''in_progress'' \<and>
         status (requests rep ! j) = ''Closed Request'' \<longrightarrow> j < i))"
proof -
  have m: "(1::int) \<le> 1" "(1::int) \<le> 12" by simp_all
  have ev: "map request_id (requests (get_daily_report 738890 example_store)) = [2, 1]"
    by code_simp
  from C2_report_working_set [where month = 1 and year = 2024 and week = 1
      and target_date = 738890 and store = example_store, OF m, unfolded Let_def]
  obtain rep where
    "get_monthly_report 2024 1 example_store = Inr rep"
    "mset (requests (get_daily_report 738890 example_store)) =
     filter_mset (\<lambda>r. status r \<noteq> ''Closed Request'' \<or> sent_out_date r = Some 738890)
       (mset example_store)"
    "sorted (map (\<lambda>x. get_status_sort_order (status x))
       (requests (get_weekly_report 2024 1 example_store)))"
    "\<forall>i j. i < length (requests rep) \<and> j < length (requests rep) \<and>
         status (requests rep ! i) = ''in_progress'' \<and>
         status (requests rep ! j) = ''Closed Request'' \<longrightarrow> j < i"
    by (elim conjE exE)
  with m ev show ?thesis by (intro conjI exI [of _ rep]) assumption+
qed

section \<open>Properties of the request store\<close>

lemma sorted_descending:
  fixes f :: "'a \<Rightarrow> int"
  shows "sorted (map (\<lambda>x. - f x) xs) = sorted (rev (map f xs))"
  by (simp add: sorted_wrt_rev sorted_wrt_map flip: rev_map)

text \<open>
  C4. \<open>get_all\<close> returns, each as often as in the table, the rows whose date
  received lies within the bounds that are given (both inclusive), and with
  \<open>overdue_only\<close> only those among them that have a target, a stored duration above
  the target and a status other than closed. Every returned row that is not closed
  carries the working days from its date received to today as its duration, every
  closed row its stored duration; the table itself is not changed, the function
  returns rows only. The rows come in descending order of creation time.
\<close>

theorem C4_get_all:
  fixes store :: store
  shows
    "(let in_bounds = (\<lambda>r. (\<forall>f. date_from = Some f \<longrightarrow> f \<le> date_request_received r) \<and>
                           (\<forall>t. date_to = Some t \<longrightarrow> date_request_received r \<le> t));
          live = (\<lambda>r. if status r \<noteq> ''Closed Request''
                       then r \<lparr> duration_days :=
                              IntV (calculate_working_days today (date_request_received r) None) \<rparr>
                       else r);
          all_rows = get_all today date_from date_to False store;
          overdue_rows = get_all today date_from date_to True store
      in mset all_rows = image_mset live (filter_mset in_bounds (mset store)) \<and>
         mset overdue_rows =
           image_mset live (filter_mset (\<lambda>r. in_bounds r \<and> target_days r \<noteq> Null \<and>
              sql_gt (duration_days r) (target_days r) \<and> status r \<noteq> ''Closed Request'')
              (mset store)) \<and>
         (\<forall>rows \<in> {all_rows, overdue_rows}.
            sorted (rev (map created_date rows)) \<and>
            (\<forall>r \<in> set rows. status r \<noteq> ''Closed Request'' \<longrightarrow>
               duration_days r =
                 IntV (calculate_working_days today (date_request_received r) None))))"
proof -
  define live where "live = (\<lambda>r::request. if status r \<noteq> ''Closed Request''
      then r \<lparr> duration_days :=
             IntV (calculate_working_days today (date_request_received r) None) \<rparr>
      else r)"
  define in_bounds where "in_bounds = (\<lambda>r::request.
      (\<forall>f. date_from = Some f \<longrightarrow> f \<le> date_request_received r) \<and>
      (\<forall>t. date_to = Some t \<longrightarrow> date_request_received r \<le> t))"
  define cond where "cond = (\<lambda>(overdue_only::bool) (r::request). in_bounds r \<and>
      (if overdue_only
       then target_days r \<noteq> Null \<and> sql_gt (duration_days r) (target_days r) \<and>
            status r \<noteq> ''Closed Request''
       else True))"
  have shape: "get_all today date_from date_to overdue_only store =
      map live (sort_key (\<lambda>r. - created_date r) (filter (cond overdue_only) store))"
    for overdue_only
    by (cases overdue_only; cases date_from; cases date_to)
       (simp_all add: get_all_def Let_def live_def cond_def in_bounds_def)
  have created_live: "created_date (live r) = created_date r" for r
    by (simp add: live_def)
  have status_live: "status (live r) = status r" for r
    by (simp add: live_def)
  have received_live: "date_request_received (live r) = date_request_received r" for r
    by (simp add: live_def)
  have ms: "mset (get_all today date_from date_to overdue_only store) =
      image_mset live (filter_mset (cond overdue_only) (mset store))" for overdue_only
    by (simp add: shape)
  have ordered: "sorted (rev (map created_date (get_all today date_from date_to overdue_only store)))"
    for overdue_only
  proof -
    have "sorted (map (\<lambda>r. - created_date r)
        (sort_key (\<lambda>r. - created_date r) (filter (cond overdue_only) store)))"
      by (rule sorted_sort_key)
    then have "sorted (rev (map created_date
        (sort_key (\<lambda>r. - created_date r) (filter (cond overdue_only) store))))"
      by (simp only: sorted_descending)
    then show ?thesis by (simp add: shape o_def created_live)
  qed
  have durations: "duration_days r =
      IntV (calculate_working_days today (date_request_received r) None)"
    if "r \<in> set (get_all today date_from date_to overdue_only store)"
      and "status r \<noteq> ''Closed Request''" for r overdue_only
  proof -
    from that(1) obtain r0 where r: "r = live r0" by (auto simp: shape)
    with that(2) have "status r0 \<noteq> ''Closed Request''" by (simp add: status_live)
    with r show ?thesis by (simp add: live_def)
  qed
  have "cond False = in_bounds" by (simp add: cond_def fun_eq_iff)
  moreover have "cond True = (\<lambda>r. in_bounds r \<and> target_days r \<noteq> Null \<and>
      sql_gt (duration_days r) (target_days r) \<and> status r \<noteq> ''Closed Request'')"
    by (simp add: cond_def fun_eq_iff)
  ultimately show ?thesis
    unfolding Let_def
    using ms [of False] ms [of True] ordered durations
    by (simp add: live_def in_bounds_def)
qed

theorem C4_get_all_witness:
  "map request_id (get_all 738897 (Some 738886) (Some 738890) False example_store) = [1, 2, 3] \<and>
   map duration_days (get_all 738897 (Some 738886) (Some 738890) False example_store) =
     [IntV 10, IntV 5, IntV 45] \<and>
   sorted (rev (map created_date
     (get_all 738897 (Some 738886) (Some 738890) False example_store))) \<and>
   status (get_all 738897 (Some 738886) (Some 738890) False example_store ! 0) \<noteq>
     ''Closed Request'' \<and>
   duration_days (get_all 738897 (Some 738886) (Some 738890) False example_store ! 0) =
     IntV (calculate_working_days 738897
       (date_request_received
          (get_all 738897 (Some 738886) (Some 738890) False example_store ! 0)) None)"
proof -
  let ?rows = "get_all 738897 (Some 738886) (Some 738890) False example_store"
  have ids: "map request_id ?rows = [1, 2, 3]" by code_simp
  have durs: "map duration_days ?rows = [IntV 10, IntV 5, IntV 45]" by code_simp
  have first_open: "status (?rows ! 0) \<noteq> ''Closed Request''" by code_simp
  have "length (map request_id ?rows) = 3" by (simp only: ids) simp
  then have first_in: "?rows ! 0 \<in> set ?rows" by simp
  from C4_get_all [where today = 738897 and date_from = "Some 738886"
      and date_to = "Some 738890" and store = example_store, unfolded Let_def]
  have "\<forall>rows \<in> {?rows, get_all 738897 (Some 738886) (Some 738890) True example_store}.
      sorted (rev (map created_date rows)) \<and>
      (\<forall>r \<in> set rows. status r \<noteq> ''Closed Request'' \<longrightarrow>
         duration_days r = IntV (calculate_working_days 738897 (date_request_received r) None))"
    by (elim conjE)
  then have both: "sorted (rev (map created_date ?rows)) \<and>
      (\<forall>r \<in> set ?rows. status r \<noteq> ''Closed Request'' \<longrightarrow>
         duration_days r = IntV (calculate_working_days 738897 (date_request_received r) None))"
    by (rule bspec) (rule insertI1)
  then have ordered: "sorted (rev (map created_date ?rows))" by (rule conjunct1)
  from both first_in first_open have live: "duration_days (?rows ! 0) =
      IntV (calculate_working_days 738897 (date_request_received (?rows ! 0)) None)"
    by blast
  from ids durs ordered first_open live show ?thesis by (intro conjI)
qed

lemma set_fields_request_id: "request_id (set_fields data r) = request_id r"
  by (simp add: set_fields_def)

lemma get_by_id_after_update:
  "get_by_id rid (map (\<lambda>r. if request_id r = rid then set_fields data r else r) store) =
     map_option (set_fields data) (get_by_id rid store)"
  by (induction store) (simp_all add: get_by_id_def set_fields_request_id)

lemma get_by_id_unique:
  assumes "distinct (map request_id store)" and "get_by_id rid store = Some r"
    and "y \<in> set store" and "request_id y = rid"
  shows "y = r"
proof -
  from assms(2) have "r \<in> set store" and "request_id r = rid"
    by (auto simp: get_by_id_def find_Some_iff)
  moreover from assms(1) have "inj_on request_id (set store)" by (simp add: distinct_map)
  ultimately show ?thesis using assms(3,4) by (auto dest: inj_onD)
qed

text \<open>What \<open>get_all\<close> returns for a row: a table row, with the live duration unless it is closed.\<close>

lemma get_all_row:
  assumes "x \<in> set (get_all today date_from date_to overdue_only store)"
  obtains r0 where "r0 \<in> set store"
    and "x = (if status r0 \<noteq> ''Closed Request''
              then r0 \<lparr> duration_days :=
                     IntV (calculate_working_days today (date_request_received r0) None) \<rparr>
              else r0)"
  using assms by (auto simp: get_all_def Let_def)

text \<open>The dictionary after the two adjustments \<open>update\<close> makes to it when it closes a request.\<close>

lemma update_closing:
  fixes today :: date and data :: request_update and store :: store
  assumes found: "get_by_id rid store = Some r"
    and closing: "upd_status data = Some ''Closed Request''"
    and no_date: "get_sent_out_date data = None"
  defines "stamped \<equiv> data \<lparr> upd_sent_out_date := Some (Some today) \<rparr>"
  defines "final \<equiv> (case upd_date_request_received data of
                       None \<Rightarrow> stamped
                     | Some received \<Rightarrow> stamped \<lparr> upd_duration_days :=
                         Some (IntV (calculate_working_days today received (Some today))) \<rparr>)"
  shows "update today rid data store =
           Inr (True, map (\<lambda>r. if request_id r = rid then set_fields final r else r) store)"
    and "status (set_fields final r) = ''Closed Request''"
    and "sent_out_date (set_fields final r) = Some today"
    and "duration_days (set_fields final r) =
           (case upd_date_request_received data of
              Some received \<Rightarrow> IntV (calculate_working_days today received (Some today))
            | None \<Rightarrow> (case upd_duration_days data of Some v \<Rightarrow> v | None \<Rightarrow> duration_days r))"
proof -
  show "update today rid data store =
      Inr (True, map (\<lambda>r. if request_id r = rid then set_fields final r else r) store)"
    using found closing no_date
    by (cases "upd_date_request_received data")
       (simp_all add: update_def Let_def final_def stamped_def get_sent_out_date_def no_fields_def)
  show "status (set_fields final r) = ''Closed Request''"
    using closing
    by (cases "upd_date_request_received data") (simp_all add: final_def stamped_def set_fields_def)
  show "sent_out_date (set_fields final r) = Some today"
    by (cases "upd_date_request_received data") (simp_all add: final_def stamped_def set_fields_def)
  show "duration_days (set_fields final r) =
      (case upd_date_request_received data of
         Some received \<Rightarrow> IntV (calculate_working_days today received (Some today))
       | None \<Rightarrow> (case upd_duration_days data of Some v \<Rightarrow> v | None \<Rightarrow> duration_days r))"
    by (cases "upd_date_request_received data") (simp_all add: final_def stamped_def set_fields_def)
qed

text \<open>
  C3 as the specification states it: the duration of a closed request is frozen at the
  value computed when it was closed. A request received on Monday 2024-01-01 with stored
  duration 1 is closed on Friday 2024-01-05 by an update that carries only the status.
  On that day the listing showed 5 working days before the update; the update stamps
  the close date and computes nothing, so the listing shows the stored 1 afterwards.
\<close>

theorem C3_frozen_value_counterexample:
  "map duration_days (get_all 738890 None None False
     [example_request 1 ''GBB_SDA_0124_IS_001'' ''in_progress'' 738886 (IntV 3) None (IntV 1)]) =
     [IntV 5] \<and>
   update 738890 1
     \<lparr> upd_status = Some ''Closed Request'', upd_sent_out_date = None,
       upd_date_request_received = None, upd_target_days = None, upd_duration_days = None \<rparr>
     [example_request 1 ''GBB_SDA_0124_IS_001'' ''in_progress'' 738886 (IntV 3) None (IntV 1)] =
     Inr (True,
       [example_request 1 ''GBB_SDA_0124_IS_001'' ''Closed Request'' 738886 (IntV 3)
          (Some 738890) (IntV 1)]) \<and>
   map duration_days (get_all 738890 None None False
     [example_request 1 ''GBB_SDA_0124_IS_001'' ''Closed Request'' 738886 (IntV 3)
        (Some 738890) (IntV 1)]) = [IntV 1] \<and>
   calculate_working_days 738890 738886 (Some 738890) = 5"
  by code_simp

text \<open>
  C3, amended. An update of an existing request that carries the status
  \<open>Closed Request\<close> and no close date succeeds and leaves the request closed with
  today as its close date. Its stored duration is then: the working days from the date
  received to today if the update carries a date received; otherwise the duration the
  update carries, if any; otherwise the duration stored before, unchanged. From then on
  every listing returns the request exactly as stored, whatever the day of the
  listing, while for every request that is not closed a listing returns the working
  days from its date received to the day of the listing. (Row ids are unique: \<open>id\<close>
  is the primary key.)
\<close>

theorem C3_close_and_freeze:
  fixes store any_store :: store
  assumes "distinct (map request_id store)"
    and "get_by_id rid store = Some r"
    and "upd_status data = Some ''Closed Request''"
    and "get_sent_out_date data = None"
  shows "\<exists>store' r'.
           update today rid data store = Inr (True, store') \<and>
           get_by_id rid store' = Some r' \<and>
           status r' = ''Closed Request'' \<and>
           sent_out_date r' = Some today \<and>
           duration_days r' =
             (case upd_date_request_received data of
                Some received \<Rightarrow> IntV (calculate_working_days today received (Some today))
              | None \<Rightarrow> (case upd_duration_days data of Some v \<Rightarrow> v | None \<Rightarrow> duration_days r)) \<and>
           (\<forall>later date_from date_to overdue_only.
              \<forall>x \<in> set (get_all later date_from date_to overdue_only store').
                request_id x = rid \<longrightarrow> x = r') \<and>
           (\<forall>later date_from date_to overdue_only.
              \<forall>x \<in> set (get_all later date_from date_to overdue_only any_store).
                status x \<noteq> ''Closed Request'' \<longrightarrow>
                duration_days x =
                  IntV (calculate_working_days later (date_request_received x) None))"
proof -
  let ?final = "case upd_date_request_received data of
      None \<Rightarrow> data \<lparr> upd_sent_out_date := Some (Some today) \<rparr>
    | Some received \<Rightarrow> data \<lparr> upd_sent_out_date := Some (Some today),
        upd_duration_days := Some (IntV (calculate_working_days today received (Some today))) \<rparr>"
  let ?store' = "map (\<lambda>r. if request_id r = rid then set_fields ?final r else r) store"
  let ?r' = "set_fields ?final r"
  note closing = update_closing [OF assms(2,3,4), of today]
  have upd: "update today rid data store = Inr (True, ?store')"
    using closing(1) by (simp cong: option.case_cong)
  have st: "status ?r' = ''Closed Request''"
    using closing(2) by (simp cong: option.case_cong)
  have sent: "sent_out_date ?r' = Some today"
    using closing(3) by (simp cong: option.case_cong)
  have dur: "duration_days ?r' =
      (case upd_date_request_received data of
         Some received \<Rightarrow> IntV (calculate_working_days today received (Some today))
       | None \<Rightarrow> (case upd_duration_days data of Some v \<Rightarrow> v | None \<Rightarrow> duration_days r))"
    using closing(4) by (simp cong: option.case_cong)
  have found: "get_by_id rid ?store' = Some ?r'"
    using assms(2) by (simp add: get_by_id_after_update)
  have frozen: "x = ?r'"
    if x: "x \<in> set (get_all later date_from date_to overdue_only ?store')"
      and rid: "request_id x = rid"
    for x later date_from date_to overdue_only
  proof -
    from x obtain r0 where r0: "r0 \<in> set ?store'"
      and x_eq: "x = (if status r0 \<noteq> ''Closed Request''
          then r0 \<lparr> duration_days :=
                 IntV (calculate_working_days later (date_request_received r0) None) \<rparr>
          else r0)"
      by (rule get_all_row)
    from x_eq rid have rid0: "request_id r0 = rid" by (simp split: if_splits)
    from r0 obtain y where y: "y \<in> set store"
      and r0_eq: "r0 = (if request_id y = rid then set_fields ?final y else y)"
      by auto
    from r0_eq rid0 have "request_id y = rid"
      by (simp add: set_fields_request_id split: if_splits)
    with assms(1,2) y have "y = r" by (rule get_by_id_unique)
    with r0_eq \<open>request_id y = rid\<close> have "r0 = ?r'" by simp
    with x_eq st show ?thesis by simp
  qed
  have live: "duration_days x =
      IntV (calculate_working_days later (date_request_received x) None)"
    if x: "x \<in> set (get_all later date_from date_to overdue_only any_store)"
      and open_x: "status x \<noteq> ''Closed Request''"
    for x later date_from date_to overdue_only
  proof -
    from x obtain r0 where
      x_eq: "x = (if status r0 \<noteq> ''Closed Request''
          then r0 \<lparr> duration_days :=
                 IntV (calculate_working_days later (date_request_received r0) None) \<rparr>
          else r0)"
      by (rule get_all_row)
    with open_x show ?thesis by (simp split: if_splits)
  qed
  show ?thesis
    by (intro exI [of _ ?store'] exI [of _ ?r'] conjI upd found st sent dur)
       (use frozen live in blast)+
qed

theorem C3_close_and_freeze_witness:
  "distinct (map request_id example_store) \<and>
   get_by_id 1 example_store =
     Some (example_request 1 ''GBB_SDA_0124_IS_001'' ''in_progress'' 738886 (IntV 3) None (IntV 1)) \<and>
   (\<exists>store' r'.
      update 738890 1
        \<lparr> upd_status = Some ''Closed Request'', upd_sent_out_date = None,
          upd_date_request_received = Some 738887, upd_target_days = None,
          upd_duration_days = None \<rparr> example_store = Inr (True, store') \<and>
      get_by_id 1 store' = Some r' \<and>
      status r' = ''Closed Request'' \<and>
      sent_out_date r' = Some 738890 \<and>
      duration_days r' = IntV 4 \<and>
      (\<forall>later date_from date_to overdue_only.
         \<forall>x \<in> set (get_all later date_from date_to overdue_only store').
           request_id x = 1 \<longrightarrow> x = r'))"
proof -
  let ?data = "\<lparr> upd_status = Some ''Closed Request'', upd_sent_out_date = None,
      upd_date_request_received = Some 738887, upd_target_days = None,
      upd_duration_days = None \<rparr>"
  have h1: "distinct (map request_id example_store)" by code_simp
  have h2: "get_by_id 1 example_store =
      Some (example_request 1 ''GBB_SDA_0124_IS_001'' ''in_progress'' 738886 (IntV 3) None (IntV 1))"
    by code_simp
  have h3: "upd_status ?data = Some ''Closed Request''" by simp
  have h4: "get_sent_out_date ?data = None" by (simp add: get_sent_out_date_def)
  have d: "calculate_working_days 738890 738887 (Some 738890) = 4" by code_simp
  from C3_close_and_freeze [OF h1 h2 h3 h4, of 738890 "[]"]
  obtain store' r' where
    "update 738890 1 ?data example_store = Inr (True, store')"
    "get_by_id 1 store' = Some r'"
    "status r' = ''Closed Request''"
    "sent_out_date r' = Some 738890"
    "duration_days r' = IntV 4"
    "\<forall>later date_from date_to overdue_only.
       \<forall>x \<in> set (get_all later date_from date_to overdue_only store').
         request_id x = 1 \<longrightarrow> x = r'"
    by (auto simp: d)
  with h1 h2 show ?thesis by blast
qed

section \<open>Properties of the dashboard statistics\<close>

text \<open>The duration \<open>get_stats\<close> compares with the target: live unless the request is closed.\<close>

lemma overdue_loop_count:
  "overdue_loop today rows n =
     Inr (n + length (filter (\<lambda>r. truthy (target_days r) \<and>
            overdue_try (if status r \<noteq> ''Closed Request''
                         then IntV (calculate_working_days today (date_request_received r) None)
                         else duration_days r) (target_days r) = Inr True) rows))"
proof (induction rows arbitrary: n)
  case Nil
  show ?case by simp
next
  case (Cons r rows)
  let ?d = "if status r \<noteq> ''Closed Request''
            then IntV (calculate_working_days today (date_request_received r) None)
            else duration_days r"
  show ?case
  proof (cases "truthy (target_days r)")
    case False
    then show ?thesis by (simp add: Cons.IH)
  next
    case True
    show ?thesis
    proof (cases "overdue_try ?d (target_days r)")
      case (Inr b)
      with True show ?thesis by (cases b) (simp_all add: Cons.IH Let_def)
    next
      case (Inl e)
      have "e = ValueError \<or> e = TypeError"
        using Inl by (auto simp: overdue_try_def split: sqlval.splits option.splits if_splits)
      with True Inl show ?thesis by (auto simp: Cons.IH Let_def)
    qed
  qed
qed

lemma overdue_try_True:
  "(truthy tdays \<and> overdue_try cur tdays = Inr True) =
     (\<exists>t d. (tdays = IntV t \<or> (\<exists>s. tdays = TextV s \<and> py_int s = Some t)) \<and>
            0 < t \<and> cur = IntV d \<and> t < d)"
proof (cases tdays)
  case Null
  then show ?thesis by simp
next
  case (IntV t)
  then show ?thesis by (cases cur) (auto simp: overdue_try_def)
next
  case (TextV s)
  have "s \<noteq> []" if "py_int s = Some t" for t
    using that by (auto simp: py_int_def strip_def)
  with TextV show ?thesis
    by (cases cur; cases "py_int s") (auto simp: overdue_try_def)
qed

lemma py_int_not_available: "py_int ''N/A'' = None"
  by code_simp

text \<open>A separator character before the digits is not stripped: the text is no integer.\<close>

lemma py_int_separator: "py_int [char_of (28 :: nat), CHR ''5''] = None"
  by code_simp

text \<open>
  C8. \<open>get_stats\<close> returns for every table; it raises nothing. Its overdue count is the
  number of rows whose target is a positive integer, stored as a number or as text
  that converts to one, and whose duration is an integer above that target, the
  duration being the live working-day count for a request that is not closed and the
  stored one for a closed request. A row whose target is text that does not convert
  to an integer, such as \<open>N/A\<close>, is therefore not counted, and neither is a row whose
  duration does not exceed its target.
\<close>

theorem C8_get_stats_overdue:
  fixes store :: store
  shows
    "(let target = (\<lambda>(r::request) t. target_days r = IntV t \<or>
                      (\<exists>s. target_days r = TextV s \<and> py_int s = Some t));
          duration = (\<lambda>r::request. if status r \<noteq> ''Closed Request''
                           then IntV (calculate_working_days today (date_request_received r) None)
                           else duration_days r);
          counted = (\<lambda>r::request. \<exists>t d. target r t \<and> 0 < t \<and> duration r = IntV d \<and> t < d)
      in (\<exists>st. get_stats today store = Inr st \<and>
                stats_overdue st = length (filter counted store)) \<and>
         (\<forall>r s. target_days r = TextV s \<and> py_int s = None \<longrightarrow> \<not> counted r) \<and>
         (\<forall>r t d. target r t \<and> duration r = IntV d \<and> d \<le> t \<longrightarrow> \<not> counted r) \<and>
         py_int ''N/A'' = None)"
proof -
  define duration where "duration = (\<lambda>r::request. if status r \<noteq> ''Closed Request''
      then IntV (calculate_working_days today (date_request_received r) None)
      else duration_days r)"
  define target where "target = (\<lambda>(r::request) t. target_days r = IntV t \<or>
      (\<exists>s. target_days r = TextV s \<and> py_int s = Some t))"
  define counted where
    "counted = (\<lambda>r::request. \<exists>t d. target r t \<and> 0 < t \<and> duration r = IntV d \<and> t < d)"
  have code: "(truthy (target_days r) \<and> overdue_try (duration r) (target_days r) = Inr True) =
      counted r" for r
    unfolding counted_def target_def by (rule overdue_try_True)
  have not_null: "target_days r \<noteq> Null" if "counted r" for r
    using that by (auto simp: counted_def target_def)
  have code': "(truthy (target_days r) \<and>
      overdue_try (if status r \<noteq> ''Closed Request''
                   then IntV (calculate_working_days today (date_request_received r) None)
                   else duration_days r) (target_days r) = Inr True) = counted r" for r
    using code [of r] by (simp only: duration_def)
  have loop0: "overdue_loop today rows 0 = Inr (length (filter counted rows))" for rows
    by (simp only: overdue_loop_count code' add_0)
  have same: "filter counted (filter (\<lambda>r. target_days r \<noteq> Null) store) = filter counted store"
    by (auto simp: not_null intro: filter_cong)
  have loop: "overdue_loop today (filter (\<lambda>r. target_days r \<noteq> Null) store) 0 =
      Inr (length (filter counted store))"
    by (simp only: loop0 same)
  have stats: "\<exists>st. get_stats today store = Inr st \<and>
      stats_overdue st = length (filter counted store)"
    by (simp add: get_stats_def loop)
  have text_skipped: "\<not> counted r" if "target_days r = TextV s" "py_int s = None" for r s
    using that by (auto simp: counted_def target_def)
  have within: "\<not> counted r" if "target r t" "duration r = IntV d" "d \<le> t" for r t d
    using that by (auto simp: counted_def target_def)
  show ?thesis
    unfolding Let_def
    using stats text_skipped within py_int_not_available
    unfolding counted_def target_def duration_def
    by blast
qed

theorem C8_get_stats_overdue_witness:
  "get_stats 738897 example_store =
     Inr \<lparr> total = 3, stats_in_progress = 1, pending = 0, closed = 2, stats_overdue = 2,
           closed_week = 2 \<rparr> \<and>
   length (filter (\<lambda>r::request. \<exists>t d.
       (target_days r = IntV t \<or> (\<exists>s. target_days r = TextV s \<and> py_int s = Some t)) \<and>
       0 < t \<and>
       (if status r \<noteq> ''Closed Request''
        then IntV (calculate_working_days 738897 (date_request_received r) None)
        else duration_days r) = IntV d \<and> t < d) example_store) = 2 \<and>
   target_days (example_store ! 2) = TextV ''N/A'' \<and> py_int ''N/A'' = None \<and>
   \<not> (\<exists>t d.
       (target_days (example_store ! 2) = IntV t \<or>
        (\<exists>s. target_days (example_store ! 2) = TextV s \<and> py_int s = Some t)) \<and>
       0 < t \<and>
       (if status (example_store ! 2) \<noteq> ''Closed Request''
        then IntV (calculate_working_days 738897 (date_request_received (example_store ! 2)) None)
        else duration_days (example_store ! 2)) = IntV d \<and> t < d)"
proof -
  have ev: "get_stats 738897 example_store =
      Inr \<lparr> total = 3, stats_in_progress = 1, pending = 0, closed = 2, stats_overdue = 2,
            closed_week = 2 \<rparr>"
    by code_simp
  have row: "target_days (example_store ! 2) = TextV ''N/A''" by code_simp
  note inst = C8_get_stats_overdue [of 738897 example_store, unfolded Let_def]
  from inst obtain st where st: "get_stats 738897 example_store = Inr st"
    and count: "stats_overdue st = length (filter (\<lambda>r::request. \<exists>t d.
       (target_days r = IntV t \<or> (\<exists>s. target_days r = TextV s \<and> py_int s = Some t)) \<and>
       0 < t \<and>
       (if status r \<noteq> ''Closed Request''
        then IntV (calculate_working_days 738897 (date_request_received r) None)
        else duration_days r) = IntV d \<and> t < d) example_store)"
    by (elim conjE exE)
  from st ev have "stats_overdue st = 2" by auto
  with count have n: "length (filter (\<lambda>r::request. \<exists>t d.
       (target_days r = IntV t \<or> (\<exists>s. target_days r = TextV s \<and> py_int s = Some t)) \<and>
       0 < t \<and>
       (if status r \<noteq> ''Closed Request''
        then IntV (calculate_working_days 738897 (date_request_received r) None)
        else duration_days r) = IntV d \<and> t < d) example_store) = 2"
    by simp
  from inst have na: "py_int ''N/A'' = None" by (elim conjE)
  from inst have skip: "\<forall>(r::request) s. target_days r = TextV s \<and> py_int s = None \<longrightarrow>
      \<not> (\<exists>t d.
       (target_days r = IntV t \<or> (\<exists>s. target_days r = TextV s \<and> py_int s = Some t)) \<and>
       0 < t \<and>
       (if status r \<noteq> ''Closed Request''
        then IntV (calculate_working_days 738897 (date_request_received r) None)
        else duration_days r) = IntV d \<and> t < d)"
    by (elim conjE)
  from skip row na have "\<not> (\<exists>t d.
       (target_days (example_store ! 2) = IntV t \<or>
        (\<exists>s. target_days (example_store ! 2) = TextV s \<and> py_int s = Some t)) \<and>
       0 < t \<and>
       (if status (example_store ! 2) \<noteq> ''Closed Request''
        then IntV (calculate_working_days 738897 (date_request_received (example_store ! 2)) None)
        else duration_days (example_store ! 2)) = IntV d \<and> t < d)"
    by blast
  with ev n row na show ?thesis by (intro conjI)
qed

text \<open>
  C7. The overdue count of the reports is meant to be the one of the dashboard, which
  derives the duration of every request that is not closed afresh. The reports count
  on the stored duration instead. One request in progress, received on Monday
  2024-01-01 with a target of 3 working days and a stored duration of 1, read on
  Friday 2024-01-12: the dashboard counts it as overdue (10 working days), the daily,
  weekly and monthly report do not.
\<close>

theorem C7_report_overdue_uses_stored_duration:
  "get_stats 738897
     [example_request 1 ''GBB_SDA_0124_IS_001'' ''in_progress'' 738886 (IntV 3) None (IntV 1)] =
     Inr \<lparr> total = 1, stats_in_progress = 1, pending = 0, closed = 0, stats_overdue = 1,
           closed_week = 0 \<rparr> \<and>
   overdue (get_daily_report 738897
     [example_request 1 ''GBB_SDA_0124_IS_001'' ''in_progress'' 738886 (IntV 3) None (IntV 1)]) = 0 \<and>
   overdue (get_weekly_report 2024 2
     [example_request 1 ''GBB_SDA_0124_IS_001'' ''in_progress'' 738886 (IntV 3) None (IntV 1)]) = 0 \<and>
   map_sum id overdue (get_monthly_report 2024 1
     [example_request 1 ''GBB_SDA_0124_IS_001'' ''in_progress'' 738886 (IntV 3) None (IntV 1)]) =
     Inr 0 \<and>
   calculate_working_days 738897 738886 None = 10"
  by code_simp

theorem C7_report_overdue_uses_stored_duration_witness:
  "map_sum id stats_overdue (get_stats 738897
     [example_request 1 ''GBB_SDA_0124_IS_001'' ''in_progress'' 738886 (IntV 3) None (IntV 1)]) \<noteq>
   Inr (overdue (get_daily_report 738897
     [example_request 1 ''GBB_SDA_0124_IS_001'' ''in_progress'' 738886 (IntV 3) None (IntV 1)]))"
  using C7_report_overdue_uses_stored_duration by simp

section \<open>Properties of the renderers\<close>

lemma get_status_color_cases:
  "get_status_color st = default_color \<or> get_status_color st \<in> snd ` set colors_map"
proof (cases "map_of colors_map st")
  case None
  then show ?thesis by (simp add: get_status_color_def)
next
  case (Some e)
  then have "(st, e) \<in> set colors_map" by (rule map_of_SomeD)
  then have "e \<in> snd ` set colors_map" by force
  with Some show ?thesis by (simp add: get_status_color_def)
qed

lemma color_entries_agree:
  "\<forall>e \<in> insert default_color (snd ` set colors_map).
     excel_cell_color (Some (filter (\<lambda>c. c \<noteq> CHR ''#'') (hex e))) = Some (reportlab e) \<and>
     reportlab e \<noteq> Color (254 / 255) (202 / 255) (202 / 255)"
  by (simp add: colors_map_def default_color_def excel_cell_color_def hex_byte_def hex_digit_def)

lemma status_color_same:
  "excel_cell_color (Some (filter (\<lambda>c. c \<noteq> CHR ''#'') (hex (get_status_color st)))) =
     Some (reportlab (get_status_color st))"
  and status_color_not_red:
  "reportlab (get_status_color st) \<noteq> Color (254 / 255) (202 / 255) (202 / 255)"
  using get_status_color_cases [of st] color_entries_agree by auto

lemma status_color_empty: "reportlab (get_status_color []) = Color 1 1 1"
  by (simp add: get_status_color_def colors_map_def default_color_def)

lemma status_color_default:
  assumes "st \<noteq> ''in_progress''" "st \<noteq> ''Pending with Presales''" "st \<noteq> ''Pending review''"
    "st \<noteq> ''Pending approval''" "st \<noteq> ''Closed Request''"
  shows "get_status_color st = default_color"
  using assms by (simp add: get_status_color_def colors_map_def)

lemma red_fill: "excel_cell_color (Some ''FECACA'') = Some (Color (254 / 255) (202 / 255) (202 / 255))"
  by (simp add: excel_cell_color_def hex_byte_def hex_digit_def)

lemma is_overdue_error: "is_overdue r = Inl e \<Longrightarrow> e = TypeError"
  by (cases "target_days r"; cases "duration_days r")
     (auto simp: is_overdue_def split: if_splits)

text \<open>The colour both renderers give the cell in column \<open>col\<close> (counted from 0) of a row.\<close>

lemma excel_cells_result:
  "excel_cells req cols =
     (case is_overdue req of
        Inl e \<Rightarrow> if cols = [] then Inr [] else Inl e
      | Inr ov \<Rightarrow>
          Inr (map (\<lambda>col. if ov \<and> col = 9 then Some ''FECACA''
                          else if status req \<noteq> []
                               then Some (filter (\<lambda>c. c \<noteq> CHR ''#'')
                                            (hex (get_status_color (status req))))
                               else None) cols))"
  by (induction cols) (auto simp: Let_def split: sum.splits)

lemma excel_rows_error:
  "excel_rows rs = Inl e \<Longrightarrow> \<exists>r \<in> set rs. is_overdue r = Inl e"
  by (induction rs arbitrary: e)
     (auto simp: excel_cells_result upt_rec [of 1 12] split: sum.splits if_splits)

lemma excel_rows_result:
  assumes "\<forall>r \<in> set rs. \<exists>ov. is_overdue r = Inr ov"
  shows "excel_rows rs =
     Inr (map (\<lambda>req. map (\<lambda>col. if is_overdue req = Inr True \<and> col = 9 then Some ''FECACA''
                          else if status req \<noteq> []
                               then Some (filter (\<lambda>c. c \<noteq> CHR ''#'')
                                            (hex (get_status_color (status req))))
                               else None) [1 ..< 12]) rs)"
  using assms by (induction rs) (auto simp: excel_cells_result)

lemma pdf_row_styles_error:
  "pdf_row_styles i rs = Inl e \<Longrightarrow> \<exists>r \<in> set rs. is_overdue r = Inl e"
  by (induction rs arbitrary: i e) (auto simp: Let_def split: sum.splits)

lemma pdf_row_styles_ok:
  "pdf_row_styles i rs = Inr cmds \<Longrightarrow> \<forall>r \<in> set rs. \<exists>ov. is_overdue r = Inr ov"
  by (induction rs arbitrary: i cmds) (auto simp: Let_def split: sum.splits)

lemma pdf_row_styles_total:
  assumes "\<forall>r \<in> set rs. \<exists>ov. is_overdue r = Inr ov"
  shows "\<exists>cmds. pdf_row_styles i rs = Inr cmds"
proof (cases "pdf_row_styles i rs")
  case (Inl e)
  then obtain r where "r \<in> set rs" "is_overdue r = Inl e"
    using pdf_row_styles_error by blast
  with assms show ?thesis by auto
next
  case (Inr cmds)
  then show ?thesis by blast
qed

text \<open>
  Painting the commands of the rows \<open>i, i + 1, ...\<close> over a cell: a cell of one of
  these rows ends with the colour of its row, or the red of the overdue mark in
  column 8; any other cell keeps what it showed.
\<close>

lemma pdf_paint_rows:
  assumes "pdf_row_styles i rs = Inr cmds" and "0 \<le> i" and "0 \<le> col" and "col < 11"
  shows "fold (\<lambda>cmd shown. if covers 11 nrows cmd (col, row) then Some (cmd_color cmd) else shown)
           cmds shown0 =
         (if i \<le> row \<and> row < i + int (length rs)
          then Some (if col = 8 \<and> is_overdue (rs ! nat (row - i)) = Inr True
                     then Color (254 / 255) (202 / 255) (202 / 255)
                     else reportlab (get_status_color (status (rs ! nat (row - i)))))
          else shown0)"
  using assms
proof (induction rs arbitrary: i cmds shown0)
  case Nil
  then show ?case by auto
next
  case (Cons r rs)
  from Cons.prems(1) obtain ov rest where ov: "is_overdue r = Inr ov"
    and rest: "pdf_row_styles (i + 1) rs = Inr rest"
    and cmds: "cmds = BACKGROUND (0, i) (-1, i) (reportlab (get_status_color (status r))) #
        (if ov then [BACKGROUND (8, i) (8, i) (Color (254 / 255) (202 / 255) (202 / 255))]
         else []) @ rest"
    by (auto simp: Let_def split: sum.splits)
  from Cons.prems(2) have i1: "0 \<le> i + 1" by simp
  note ih = Cons.IH [OF rest i1 Cons.prems(3,4)]
  show ?case
  proof (cases "row = i")
    case True
    then have "nat (row - i) = 0" by simp
    with Cons.prems(2,3,4) ov show ?thesis
      unfolding True by (cases ov) (simp_all add: cmds ih [unfolded True] resolve_index_def)
  next
    case False
    then have "i \<le> row \<Longrightarrow> nat (row - i) = Suc (nat (row - (i + 1)))" by simp
    with False Cons.prems(2,3,4) ov show ?thesis
      by (cases ov) (auto simp: cmds ih resolve_index_def)
  qed
qed

lemma excel_rows_ok:
  "excel_rows rs = Inr rows \<Longrightarrow> \<forall>r \<in> set rs. \<exists>ov. is_overdue r = Inr ov"
  by (induction rs arbitrary: rows)
     (auto simp: excel_cells_result upt_rec [of 1 12] split: sum.splits if_splits)

lemma renderers_fail_together:
  "(create_report_pdf report_data = Inl e) = (create_report_excel report_data = Inl e)"
proof
  assume "create_report_pdf report_data = Inl e"
  then obtain r where r: "r \<in> set (requests report_data)" "is_overdue r = Inl e"
    unfolding create_report_pdf_def using pdf_row_styles_error by blast
  show "create_report_excel report_data = Inl e"
  proof (cases "excel_rows (requests report_data)")
    case (Inl e')
    then obtain r' where "is_overdue r' = Inl e'" using excel_rows_error by blast
    with r(2) have "e' = e" using is_overdue_error by metis
    with Inl show ?thesis by (simp add: create_report_excel_def)
  next
    case (Inr rows)
    with r show ?thesis using excel_rows_ok by fastforce
  qed
next
  assume "create_report_excel report_data = Inl e"
  then obtain r where r: "r \<in> set (requests report_data)" "is_overdue r = Inl e"
    unfolding create_report_excel_def using excel_rows_error by blast
  show "create_report_pdf report_data = Inl e"
  proof (cases "pdf_row_styles 1 (requests report_data)")
    case (Inl e')
    then obtain r' where "is_overdue r' = Inl e'" using pdf_row_styles_error by blast
    with r(2) have "e' = e" using is_overdue_error by metis
    with Inl show ?thesis by (simp add: create_report_pdf_def)
  next
    case (Inr cmds)
    with r show ?thesis using pdf_row_styles_ok by fastforce
  qed
qed

lemma is_overdue_integers:
  "target_days r = IntV t \<Longrightarrow> duration_days r = IntV d \<Longrightarrow>
     (is_overdue r = Inr True) = (t \<noteq> 0 \<and> t < d)"
  by (simp add: is_overdue_def)

text \<open>
  C6, amended. When the comparison of duration and target is ill-typed for some row
  (an integer against text or null), the overdue test raises the same \<open>TypeError\<close>
  in both renderers. Otherwise every cell of every row of the request table shows the
  same colour in the document and in the spreadsheet: the colour of the row's status
  from the shared table (white for a status outside the five, where the spreadsheet
  leaves the cell of an empty status unfilled), except that the duration cell
  (column 8, counted from 0) of an overdue row shows the red of the overdue mark, which
  is none of the status colours. A row is overdue when its target is set and not zero
  and its duration is above the target, whatever its status; a row without target, or
  with target 0, is never marked.
\<close>

theorem C6_renderers_agree:
  fixes report_data :: report
  shows
    "(let rs = requests report_data; red = Color (254 / 255) (202 / 255) (202 / 255)
      in (case create_report_pdf report_data of
            Inl e \<Rightarrow> create_report_excel report_data = Inl e \<and> e = TypeError
          | Inr cmds \<Rightarrow>
              (\<exists>rows. create_report_excel report_data = Inr rows \<and>
                 length rows = length rs \<and>
                 (\<forall>k < length rs. length (rows ! k) = 11 \<and>
                    (\<forall>col < 11.
                       pdf_cell_color 11 (int (length rs) + 1) cmds (int col, int k + 1) =
                         excel_cell_color (rows ! k ! col) \<and>
                       excel_cell_color (rows ! k ! col) =
                         Some (if col = 8 \<and> is_overdue (rs ! k) = Inr True then red
                               else reportlab (get_status_color (status (rs ! k)))))))) \<and>
         (\<forall>st. reportlab (get_status_color st) \<noteq> red) \<and>
         (\<forall>st. st \<notin> {''in_progress'', ''Pending with Presales'', ''Pending review'',
                      ''Pending approval'', ''Closed Request''} \<longrightarrow>
               reportlab (get_status_color st) = Color 1 1 1) \<and>
         (\<forall>(r::request) t d. target_days r = IntV t \<and> duration_days r = IntV d \<longrightarrow>
               (is_overdue r = Inr True) = (t \<noteq> 0 \<and> t < d)) \<and>
         (\<forall>r::request. target_days r = Null \<or> target_days r = IntV 0 \<longrightarrow>
               is_overdue r = Inr False) \<and>
         (\<forall>(r::request) st. is_overdue (r \<lparr> status := st \<rparr>) = is_overdue r))"
proof -
  let ?rs = "requests report_data"
  let ?red = "Color (254 / 255) (202 / 255) (202 / 255)"
  let ?fill = "\<lambda>req col. if is_overdue req = Inr True \<and> col = 9 then Some ''FECACA''
      else if status req \<noteq> []
           then Some (filter (\<lambda>c. c \<noteq> CHR ''#'') (hex (get_status_color (status req))))
           else None"
  have fill_color: "excel_cell_color (?fill req (Suc col)) =
      Some (if col = 8 \<and> is_overdue req = Inr True then ?red
            else reportlab (get_status_color (status req)))" for req col
  proof (cases "status req = []")
    case True
    have "excel_cell_color None = Some (Color 1 1 1)" by (simp add: excel_cell_color_def)
    with True show ?thesis
      using status_color_empty by (auto simp: red_fill)
  next
    case False
    then show ?thesis by (auto simp: red_fill status_color_same)
  qed
  have cells: "(case create_report_pdf report_data of
        Inl e \<Rightarrow> create_report_excel report_data = Inl e \<and> e = TypeError
      | Inr cmds \<Rightarrow>
          (\<exists>rows. create_report_excel report_data = Inr rows \<and>
             length rows = length ?rs \<and>
             (\<forall>k < length ?rs. length (rows ! k) = 11 \<and>
                (\<forall>col < 11.
                   pdf_cell_color 11 (int (length ?rs) + 1) cmds (int col, int k + 1) =
                     excel_cell_color (rows ! k ! col) \<and>
                   excel_cell_color (rows ! k ! col) =
                     Some (if col = 8 \<and> is_overdue (?rs ! k) = Inr True then ?red
                           else reportlab (get_status_color (status (?rs ! k))))))))"
  proof (cases "create_report_pdf report_data")
    case (Inl e)
    then obtain r where "is_overdue r = Inl e"
      unfolding create_report_pdf_def using pdf_row_styles_error by blast
    then have "e = TypeError" by (rule is_overdue_error)
    with Inl show ?thesis using renderers_fail_together [of report_data e] by simp
  next
    case (Inr cmds)
    then have styles: "pdf_row_styles 1 ?rs = Inr cmds" by (simp add: create_report_pdf_def)
    then have ok: "\<forall>r \<in> set ?rs. \<exists>ov. is_overdue r = Inr ov" by (rule pdf_row_styles_ok)
    let ?rows = "map (\<lambda>req. map (?fill req) [1 ..< 12]) ?rs"
    have excel: "create_report_excel report_data = Inr ?rows"
      unfolding create_report_excel_def by (rule excel_rows_result [OF ok])
    have cell: "pdf_cell_color 11 (int (length ?rs) + 1) cmds (int col, int k + 1) =
          excel_cell_color (?rows ! k ! col) \<and>
        excel_cell_color (?rows ! k ! col) =
          Some (if col = 8 \<and> is_overdue (?rs ! k) = Inr True then ?red
                else reportlab (get_status_color (status (?rs ! k))))"
      if k: "k < length ?rs" and col: "col < 11" for k col
    proof -
      have nth: "?rows ! k ! col = ?fill (?rs ! k) (Suc col)"
        using k col by simp
      have "pdf_cell_color 11 (int (length ?rs) + 1) cmds (int col, int k + 1) =
          Some (if int col = 8 \<and> is_overdue (?rs ! nat (int k + 1 - 1)) = Inr True then ?red
                else reportlab (get_status_color (status (?rs ! nat (int k + 1 - 1)))))"
        unfolding pdf_cell_color_def
        using pdf_paint_rows [OF styles, of "int col" "int (length ?rs) + 1" "int k + 1" None]
          k col
        by simp
      then have pdf: "pdf_cell_color 11 (int (length ?rs) + 1) cmds (int col, int k + 1) =
          Some (if col = 8 \<and> is_overdue (?rs ! k) = Inr True then ?red
                else reportlab (get_status_color (status (?rs ! k))))"
        by simp
      show ?thesis unfolding nth fill_color pdf by simp
    qed
    have "length ?rows = length ?rs \<and>
        (\<forall>k < length ?rs. length (?rows ! k) = 11 \<and>
           (\<forall>col < 11.
              pdf_cell_color 11 (int (length ?rs) + 1) cmds (int col, int k + 1) =
                excel_cell_color (?rows ! k ! col) \<and>
              excel_cell_color (?rows ! k ! col) =
                Some (if col = 8 \<and> is_overdue (?rs ! k) = Inr True then ?red
                      else reportlab (get_status_color (status (?rs ! k))))))"
      using cell by simp
    with excel have "\<exists>rows. create_report_excel report_data = Inr rows \<and>
        length rows = length ?rs \<and>
        (\<forall>k < length ?rs. length (rows ! k) = 11 \<and>
           (\<forall>col < 11.
              pdf_cell_color 11 (int (length ?rs) + 1) cmds (int col, int k + 1) =
                excel_cell_color (rows ! k ! col) \<and>
              excel_cell_color (rows ! k ! col) =
                Some (if col = 8 \<and> is_overdue (?rs ! k) = Inr True then ?red
                      else reportlab (get_status_color (status (?rs ! k))))))"
      by (intro exI [of _ ?rows] conjI) simp_all
    with Inr show ?thesis by simp
  qed
  have not_red: "\<forall>st. reportlab (get_status_color st) \<noteq> ?red"
    using status_color_not_red by blast
  have white: "\<forall>st. st \<notin> {''in_progress'', ''Pending with Presales'', ''Pending review'',
      ''Pending approval'', ''Closed Request''} \<longrightarrow>
      reportlab (get_status_color st) = Color 1 1 1"
    using status_color_default by (simp add: default_color_def)
  have ints: "\<forall>(r::request) t d. target_days r = IntV t \<and> duration_days r = IntV d \<longrightarrow>
      (is_overdue r = Inr True) = (t \<noteq> 0 \<and> t < d)"
    using is_overdue_integers by blast
  have unset: "\<forall>r::request. target_days r = Null \<or> target_days r = IntV 0 \<longrightarrow>
      is_overdue r = Inr False"
    by (auto simp: is_overdue_def)
  have any_status: "\<forall>(r::request) st. is_overdue (r \<lparr> status := st \<rparr>) = is_overdue r"
    by (simp add: is_overdue_def)
  show ?thesis
    unfolding Let_def using cells not_red white ints unset any_status by (intro conjI)
qed

theorem C6_renderers_agree_witness:
  "(\<exists>cmds rows.
      create_report_pdf (get_daily_report 738890 example_store) = Inr cmds \<and>
      create_report_excel (get_daily_report 738890 example_store) = Inr rows \<and>
      is_overdue (requests (get_daily_report 738890 example_store) ! 0) = Inr True \<and>
      pdf_cell_color 11 3 cmds (8, 1) = excel_cell_color (rows ! 0 ! 8) \<and>
      excel_cell_color (rows ! 0 ! 8) = Some (Color (254 / 255) (202 / 255) (202 / 255))) \<and>
   create_report_pdf (get_daily_report 738946 example_store) = Inl TypeError \<and>
   create_report_excel (get_daily_report 738946 example_store) = Inl TypeError"
proof -
  let ?rd = "get_daily_report 738890 example_store"
  let ?cmds = "[BACKGROUND (0, 1) (- 1, 1) (Color (220 / 255) (252 / 255) (231 / 255)),
      BACKGROUND (8, 1) (8, 1) (Color (254 / 255) (202 / 255) (202 / 255)),
      BACKGROUND (0, 2) (- 1, 2) (Color (254 / 255) (243 / 255) (199 / 255))]"
  have pdf: "create_report_pdf ?rd = Inr ?cmds" by code_simp
  have len: "length (requests ?rd) = 2" by code_simp
  have ov: "is_overdue (requests ?rd ! 0) = Inr True" by code_simp
  from C6_renderers_agree [of ?rd, unfolded Let_def pdf sum.case len]
  obtain rows where excel: "create_report_excel ?rd = Inr rows"
    and cells: "\<forall>k < 2. length (rows ! k) = 11 \<and>
      (\<forall>col < 11.
         pdf_cell_color 11 (int 2 + 1) ?cmds (int col, int k + 1) =
           excel_cell_color (rows ! k ! col) \<and>
         excel_cell_color (rows ! k ! col) =
           Some (if col = 8 \<and> is_overdue (requests ?rd ! k) = Inr True
                 then Color (254 / 255) (202 / 255) (202 / 255)
                 else reportlab (get_status_color (status (requests ?rd ! k)))))"
    by (elim conjE exE)
  have k0: "(0::nat) < 2" and col8: "(8::nat) < 11" by simp_all
  note row0 = cells [rule_format, OF k0, THEN conjunct2, rule_format, OF col8]
  from row0 have "pdf_cell_color 11 3 ?cmds (8, 1) = excel_cell_color (rows ! 0 ! 8) \<and>
      excel_cell_color (rows ! 0 ! 8) =
        Some (if is_overdue (requests ?rd ! 0) = Inr True
              then Color (254 / 255) (202 / 255) (202 / 255)
              else reportlab (get_status_color (status (requests ?rd ! 0))))"
    by simp
  with ov have cell: "pdf_cell_color 11 3 ?cmds (8, 1) = excel_cell_color (rows ! 0 ! 8)"
    "excel_cell_color (rows ! 0 ! 8) = Some (Color (254 / 255) (202 / 255) (202 / 255))"
    by simp_all
  have pdf2: "create_report_pdf (get_daily_report 738946 example_store) = Inl TypeError"
    by code_simp
  from C6_renderers_agree [of "get_daily_report 738946 example_store",
      unfolded Let_def pdf2 sum.case]
  have excel2: "create_report_excel (get_daily_report 738946 example_store) = Inl TypeError"
    by (elim conjE)
  from pdf excel ov cell pdf2 excel2 show ?thesis by blast
qed

text \<open>
  C6 as the specification states it: a row is marked overdue when its target is set
  and its duration is above the target. A closed request with target 0 and duration 4
  has a target and a duration above it, yet neither renderer marks it: the document
  gets the one command for the row's status colour, the spreadsheet eleven cells in
  the status colour.
\<close>

theorem C6_zero_target_counterexample:
  "target_days (example_request 1 ''GBB_SDA_0124_IS_001'' ''Closed Request'' 738886
     (IntV 0) (Some 738890) (IntV 4)) = IntV 0 \<and>
   duration_days (example_request 1 ''GBB_SDA_0124_IS_001'' ''Closed Request'' 738886
     (IntV 0) (Some 738890) (IntV 4)) = IntV 4 \<and>
   is_overdue (example_request 1 ''GBB_SDA_0124_IS_001'' ''Closed Request'' 738886
     (IntV 0) (Some 738890) (IntV 4)) = Inr False \<and>
   create_report_pdf \<lparr> created = 0, completed = 0, in_progress = 0, overdue = 0,
       requests = [example_request 1 ''GBB_SDA_0124_IS_001'' ''Closed Request'' 738886
                     (IntV 0) (Some 738890) (IntV 4)] \<rparr> =
     Inr [BACKGROUND (0, 1) (- 1, 1) (Color (220 / 255) (252 / 255) (231 / 255))] \<and>
   create_report_excel \<lparr> created = 0, completed = 0, in_progress = 0, overdue = 0,
       requests = [example_request 1 ''GBB_SDA_0124_IS_001'' ''Closed Request'' 738886
                     (IntV 0) (Some 738890) (IntV 4)] \<rparr> =
     Inr [replicate 11 (Some ''DCFCE7'')]"
  by code_simp

section \<open>Properties of the identifier generator\<close>

subsection \<open>Three-digit numbers as text\<close>

lemma of_char_digit_char: "d < 10 \<Longrightarrow> (of_char (digit_char d) :: nat) = 48 + d"
  by (simp add: digit_char_def)

lemma is_digit_digit_char: "d < 10 \<Longrightarrow> is_digit (digit_char d)"
  by (simp add: is_digit_def of_char_digit_char)

lemma digit_val_digit_char: "d < 10 \<Longrightarrow> digit_val (digit_char d) = int d"
  by (simp add: digit_val_def of_char_digit_char)

lemma digit_char_less: "a < 10 \<Longrightarrow> b < 10 \<Longrightarrow> (digit_char a < digit_char b) = (a < b)"
  by (simp add: less_char_def of_char_digit_char)

lemma digit_char_eq:
  assumes "a < 10" and "b < 10"
  shows "(digit_char a = digit_char b) = (a = b)"
proof
  assume "digit_char a = digit_char b"
  then have "(of_char (digit_char a) :: nat) = of_char (digit_char b)" by simp
  with assms show "a = b" by (simp add: of_char_digit_char)
qed simp

lemma digit_char_plain:
  assumes "d < 10"
  shows "digit_char d \<noteq> CHR ''_''" "digit_char d \<noteq> CHR ''-''" "digit_char d \<noteq> CHR ''+''"
    "\<not> is_space (digit_char d)"
proof -
  have v: "(of_char (digit_char d) :: nat) = 48 + d" using assms by (rule of_char_digit_char)
  have "(of_char (digit_char d) :: nat) \<noteq> of_char CHR ''_''" using v assms by simp
  then show "digit_char d \<noteq> CHR ''_''" by auto
  have "(of_char (digit_char d) :: nat) \<noteq> of_char CHR ''-''" using v assms by simp
  then show "digit_char d \<noteq> CHR ''-''" by auto
  have "(of_char (digit_char d) :: nat) \<noteq> of_char CHR ''+''" using v assms by simp
  then show "digit_char d \<noteq> CHR ''+''" by auto
  show "\<not> is_space (digit_char d)" using v assms by (simp add: is_space_def)
qed

lemma digits_of_3:
  assumes "n < 1000"
  shows "replicate (3 - length (digits_of n)) (CHR ''0'') @ digits_of n =
           [digit_char (n div 100), digit_char (n div 10 mod 10), digit_char (n mod 10)]"
proof -
  have "char_of (of_char (CHR ''0'') :: nat) = CHR ''0''" by (rule char_of_char)
  then have zero: "CHR ''0'' = digit_char 0" by (simp add: digit_char_def)
  consider "n < 10" | "10 \<le> n" "n < 100" | "100 \<le> n" "n < 1000"
    using assms by linarith
  then show ?thesis
  proof cases
    case 1
    then show ?thesis
      by (simp add: digits_of.simps [of n] zero numeral_3_eq_3)
  next
    case 2
    then have "n div 10 < 10" by simp
    with 2 show ?thesis
      by (simp add: digits_of.simps [of n] digits_of.simps [of "n div 10"] zero)
  next
    case 3
    then have a: "\<not> n div 10 < 10" and b: "n div 100 < 10" by simp_all
    have c: "n div 10 div 10 = n div 100" by (simp add: div_mult2_eq)
    from 3 a b show ?thesis
      by (simp add: digits_of.simps [of n] digits_of.simps [of "n div 10"]
            digits_of.simps [of "n div 100"] c)
  qed
qed

lemma decimal_3:
  fixes k :: nat
  shows "k div 100 * 100 + k div 10 mod 10 * 10 + k mod 10 = k"
proof -
  have c: "k div 10 div 10 = k div 100" by (simp add: div_mult2_eq)
  have "k div 100 * 100 + k div 10 mod 10 * 10 + k mod 10 =
      (k div 10 div 10 * 10 + k div 10 mod 10) * 10 + k mod 10"
    by (simp only: c add_mult_distrib mult.assoc)
  also have "\<dots> = k div 10 * 10 + k mod 10" by (simp only: div_mult_mod_eq)
  also have "\<dots> = k" by (simp only: div_mult_mod_eq)
  finally show ?thesis .
qed

lemma decimal_3_less:
  fixes i j :: nat
  assumes "i < j"
  shows "i div 100 < j div 100 \<or>
      i div 100 = j div 100 \<and> (i div 10 mod 10 < j div 10 mod 10 \<or>
        i div 10 mod 10 = j div 10 mod 10 \<and> i mod 10 < j mod 10)"
proof -
  define ai bi ci where "ai = i div 100" and "bi = i div 10 mod 10" and "ci = i mod 10"
  define aj bj cj where "aj = j div 100" and "bj = j div 10 mod 10" and "cj = j mod 10"
  have i: "i = ai * 100 + bi * 10 + ci" unfolding ai_def bi_def ci_def by (rule decimal_3 [symmetric])
  have j: "j = aj * 100 + bj * 10 + cj" unfolding aj_def bj_def cj_def by (rule decimal_3 [symmetric])
  have b: "bi < 10" "ci < 10" "bj < 10" "cj < 10"
    unfolding bi_def ci_def bj_def cj_def by simp_all
  have "ai < aj \<or> ai = aj \<and> (bi < bj \<or> bi = bj \<and> ci < cj)"
    using assms i j b by linarith
  then show ?thesis unfolding ai_def bi_def ci_def aj_def bj_def cj_def .
qed
lemma format_3:
  assumes "k < 1000"
  shows "format_0d 3 (int k) =
           [digit_char (k div 100), digit_char (k div 10 mod 10), digit_char (k mod 10)]"
  using digits_of_3 [OF assms] by (simp add: format_0d_def)

lemma py_int_format_3:
  assumes "k < 1000"
  shows "py_int (format_0d 3 (int k)) = Some (int k)"
proof -
  let ?a = "k div 100" and ?b = "k div 10 mod 10" and ?c = "k mod 10"
  have a: "?a < 10" using assms by simp
  have b: "?b < 10" and c: "?c < 10" by simp_all
  have value_k: "int ?a * 100 + int ?b * 10 + int ?c = int k"
  proof -
    have "?a * 100 + ?b * 10 + ?c = k" by (rule decimal_3)
    then have "int (?a * 100 + ?b * 10 + ?c) = int k" by (rule arg_cong)
    then show ?thesis by simp
  qed
  have "strip [digit_char ?a, digit_char ?b, digit_char ?c] =
      [digit_char ?a, digit_char ?b, digit_char ?c]"
    using a b c by (simp add: strip_def digit_char_plain)
  then have "py_int [digit_char ?a, digit_char ?b, digit_char ?c] =
      Some ((int ?a * 10 + int ?b) * 10 + int ?c)"
    using a b c
    by (simp add: py_int_def parse_unsigned_def digit_char_plain is_digit_digit_char
          digit_val_digit_char)
  then show ?thesis using value_k by (simp add: format_3 [OF assms] algebra_simps)
qed

lemma format_3_less:
  assumes "i < j" and "j < 1000"
  shows "format_0d 3 (int i) < format_0d 3 (int j)"
proof -
  from assms have i: "i < 1000" by simp
  have digits: "i div 100 < 10" "j div 100 < 10" "i div 10 mod 10 < 10" "j div 10 mod 10 < 10"
    "i mod 10 < 10" "j mod 10 < 10"
    using assms by simp_all
  have "i div 100 < j div 100 \<or>
      i div 100 = j div 100 \<and> (i div 10 mod 10 < j div 10 mod 10 \<or>
        i div 10 mod 10 = j div 10 mod 10 \<and> i mod 10 < j mod 10)"
    using assms(1) by (rule decimal_3_less)
  then show ?thesis
    using digits by (simp add: format_3 i assms(2) digit_char_less digit_char_eq)
qed

lemma format_3_no_underscore:
  assumes "k < 1000"
  shows "CHR ''_'' \<notin> set (format_0d 3 (int k))"
proof -
  have "k div 100 < 10" using assms by simp
  then have "digit_char (k div 100) \<noteq> CHR ''_''" by (rule digit_char_plain(1))
  moreover have "digit_char (k div 10 mod 10) \<noteq> CHR ''_''"
    by (rule digit_char_plain(1)) simp
  moreover have "digit_char (k mod 10) \<noteq> CHR ''_''"
    by (rule digit_char_plain(1)) simp
  ultimately show ?thesis by (simp add: format_3 [OF assms] eq_commute)
qed

subsection \<open>The query for the last identifier of a bucket\<close>

lemma sql_like_percent: "sql_like ''%'' s"
  by (induction s) simp_all

lemma sql_like_percent_Cons: "sql_like q s \<Longrightarrow> sql_like (CHR ''%'' # q) s"
  by (cases s) simp_all

text \<open>Every text that starts with \<open>p\<close> matches the pattern \<open>p%\<close>.\<close>

lemma sql_like_prefix: "sql_like (p @ ''%'') (p @ x)"
proof (induction p)
  case Nil
  show ?case using sql_like_percent by simp
next
  case (Cons c p)
  show ?case
  proof (cases "c = CHR ''%''")
    case True
    have "sql_like (CHR ''%'' # p @ ''%'') (p @ x)"
      using Cons.IH by (rule sql_like_percent_Cons)
    with True show ?thesis by simp
  next
    case False
    with Cons.IH show ?thesis by simp
  qed
qed

lemma last_component_suffix:
  assumes "CHR ''_'' \<notin> set ds"
  shows "last_component (q @ ''_'' @ ds) = ds"
proof -
  have "takeWhile (\<lambda>c. c \<noteq> CHR ''_'') (rev ds @ CHR ''_'' # rev q) =
      rev ds @ takeWhile (\<lambda>c. c \<noteq> CHR ''_'') (CHR ''_'' # rev q)"
    by (rule takeWhile_append2) (use assms in auto)
  then show ?thesis by (simp add: last_component_def)
qed

lemma append_less_append:
  fixes a b :: string
  shows "(p @ a < p @ b) = (a < b)"
  by (induction p) simp_all

lemma select_last_matching:
  assumes "filter (sql_like pattern) (map custom_id store) = ids" and "ids \<noteq> []"
  shows "select_last_custom_id pattern store = Some (Max (set ids))"
proof -
  from assms(2) obtain x xs where ids: "ids = x # xs" by (cases ids) auto
  have "Max (set ids) = fold max xs x" unfolding ids by (rule Max.set_eq_fold)
  with assms(1) ids show ?thesis by (simp add: select_last_custom_id_def)
qed

text \<open>
  The identifiers \<open>p001, ..., p\<close>\<open>k\<close> of a bucket with prefix \<open>p\<close>, and the greatest
  of them in the order of the strings.
\<close>

lemma bucket_max:
  assumes "0 < k" and "k < 1000"
  shows "Max (set (map (\<lambda>i. p @ format_0d 3 (int i)) [1 ..< Suc k])) = p @ format_0d 3 (int k)"
proof (rule Max_eqI)
  show "finite (set (map (\<lambda>i. p @ format_0d 3 (int i)) [1 ..< Suc k]))" by simp
  show "p @ format_0d 3 (int k) \<in> set (map (\<lambda>i. p @ format_0d 3 (int i)) [1 ..< Suc k])"
    using assms(1) by auto
  fix y
  assume "y \<in> set (map (\<lambda>i. p @ format_0d 3 (int i)) [1 ..< Suc k])"
  then obtain i where "i \<in> set [1 ..< Suc k]" and y: "y = p @ format_0d 3 (int i)"
    unfolding set_map by blast
  then have i: "i \<le> k" by auto
  show "y \<le> p @ format_0d 3 (int k)"
  proof (cases "i = k")
    case True
    with y show ?thesis by simp
  next
    case False
    with i have "i < k" by simp
    then have "format_0d 3 (int i) < format_0d 3 (int k)" using assms(2) by (rule format_3_less)
    then show ?thesis by (simp add: y append_less_append less_imp_le)
  qed
qed

lemma bucket_matching:
  fixes S0 rows :: store
  assumes empty: "\<forall>r \<in> set S0. \<not> sql_like (p @ ''%'') (custom_id r)"
    and ids: "map custom_id rows = map (\<lambda>i. p @ f i) is"
  shows "filter (sql_like (p @ ''%'')) (map custom_id (S0 @ rows)) = map custom_id rows"
proof -
  have "filter (sql_like (p @ ''%'')) (map custom_id S0) = []"
    using empty by (simp add: filter_empty_conv)
  moreover have "filter (sql_like (p @ ''%'')) (map (\<lambda>i. p @ f i) is) = map (\<lambda>i. p @ f i) is"
    by (simp add: sql_like_prefix)
  ultimately show ?thesis by (simp add: ids)
qed

text \<open>
  One generation: when the bucket of the prefix holds exactly the identifiers numbered
  1 to \<open>k\<close>, the next identifier has number \<open>k + 1\<close>.
\<close>

lemma generate_custom_id_next:
  fixes S0 rows :: store
  assumes p: "p = ''GBB_SDA_'' @ mmyy @ ''_'' @ get_service_slug stype @ ''_''"
    and empty: "\<forall>r \<in> set S0. \<not> sql_like (p @ ''%'') (custom_id r)"
    and ids: "map custom_id rows = map (\<lambda>i. p @ format_0d 3 (int i)) [1 ..< Suc k]"
    and k: "k < 1000"
  shows "generate_custom_id mmyy stype (S0 @ rows) = p @ format_0d 3 (int (Suc k))"
proof -
  have matching: "filter (sql_like (p @ ''%'')) (map custom_id (S0 @ rows)) =
      map (\<lambda>i. p @ format_0d 3 (int i)) [1 ..< Suc k]"
    using bucket_matching [OF empty ids] ids by simp
  have next_number: "(case select_last_custom_id (p @ ''%'') (S0 @ rows) of
        Some last_id \<Rightarrow>
          (case py_int (last_component last_id) of
             Some last_number \<Rightarrow> last_number + 1
           | None \<Rightarrow> 1)
      | None \<Rightarrow> 1) = int (Suc k)"
  proof (cases "k = 0")
    case True
    with matching show ?thesis by (simp add: select_last_custom_id_def)
  next
    case False
    then have pos: "0 < k" by simp
    from False have "map (\<lambda>i. p @ format_0d 3 (int i)) [1 ..< Suc k] \<noteq> []" by simp
    with matching have "select_last_custom_id (p @ ''%'') (S0 @ rows) =
        Some (Max (set (map (\<lambda>i. p @ format_0d 3 (int i)) [1 ..< Suc k])))"
      by (rule select_last_matching)
    then have last: "select_last_custom_id (p @ ''%'') (S0 @ rows) =
        Some (p @ format_0d 3 (int k))"
      by (simp only: bucket_max [OF pos k])
    have "last_component (p @ format_0d 3 (int k)) = format_0d 3 (int k)"
      using last_component_suffix [OF format_3_no_underscore [OF k],
          of "''GBB_SDA_'' @ mmyy @ ''_'' @ get_service_slug stype"]
      by (simp add: p)
    then have "py_int (last_component (p @ format_0d 3 (int k))) = Some (int k)"
      by (simp add: py_int_format_3 [OF k])
    with last show ?thesis by simp
  qed
  show ?thesis
    unfolding generate_custom_id_def Let_def
    using next_number by (simp add: p)
qed

lemma bucket_ids_increasing:
  assumes "n < 1000"
  shows "sorted_wrt (<) (map (\<lambda>i. p @ format_0d 3 (int i)) [1 ..< Suc n])"
proof -
  have "p @ format_0d 3 (int i) < p @ format_0d 3 (int j)"
    if "i \<in> set [1 ..< Suc n]" "j \<in> set [1 ..< Suc n]" "i < j" for i j
  proof -
    from that(2) assms have "j < 1000" by auto
    with that(3) show ?thesis by (simp add: append_less_append format_3_less)
  qed
  moreover have "sorted_wrt (<) [1 ..< Suc n]" by (rule sorted_wrt_upt)
  ultimately have "sorted_wrt (\<lambda>i j. p @ format_0d 3 (int i) < p @ format_0d 3 (int j))
      [1 ..< Suc n]"
    by (rule sorted_wrt_mono_rel)
  then show ?thesis by (simp only: sorted_wrt_map)
qed

lemma create_next:
  fixes S0 rows :: store
  assumes p: "p = ''GBB_SDA_'' @ mmyy @ ''_'' @ get_service_slug stype @ ''_''"
    and stype: "stype = (case new_service_type data of None \<Rightarrow> ''Internet Service'' | Some s \<Rightarrow> s)"
    and empty: "\<forall>r \<in> set S0. \<not> sql_like (p @ ''%'') (custom_id r)"
    and ids: "map custom_id rows = map (\<lambda>i. p @ format_0d 3 (int i)) [1 ..< Suc k]"
    and k: "k < 999"
  shows "\<exists>rid row. create mmyy today now data (S0 @ rows) = Inr (rid, S0 @ rows @ [row]) \<and>
           custom_id row = p @ format_0d 3 (int (Suc k))"
proof -
  let ?cid = "p @ format_0d 3 (int (Suc k))"
  from k have k': "k < 1000" by simp
  have gen: "generate_custom_id mmyy stype (S0 @ rows) = ?cid"
    using p empty ids k' by (rule generate_custom_id_next)
  have "?cid \<notin> custom_id ` set S0"
    using empty sql_like_prefix [of p "format_0d 3 (int (Suc k))"] by auto
  moreover have "?cid \<notin> set (map custom_id rows)"
  proof
    assume "?cid \<in> set (map custom_id rows)"
    then obtain i where "i \<in> set [1 ..< Suc k]"
      and eq: "p @ format_0d 3 (int (Suc k)) = p @ format_0d 3 (int i)"
      unfolding ids set_map by blast
    then have "i < Suc k" by auto
    moreover have "Suc k < 1000" using k by simp
    ultimately have "format_0d 3 (int i) < format_0d 3 (int (Suc k))" by (rule format_3_less)
    with eq show False by simp
  qed
  ultimately have fresh: "?cid \<notin> set (map custom_id (S0 @ rows))" by simp
  show ?thesis
    unfolding create_def Let_def
    using fresh by (simp add: gen flip: stype)
qed

text \<open>Repeated creation in one bucket: after the identifiers 1 to \<open>k\<close> come \<open>k + 1\<close> to \<open>k + n\<close>.\<close>

lemma create_n_from:
  fixes S0 rows :: store
  assumes p: "p = ''GBB_SDA_'' @ mmyy @ ''_'' @ get_service_slug stype @ ''_''"
    and stype: "stype = (case new_service_type data of None \<Rightarrow> ''Internet Service'' | Some s \<Rightarrow> s)"
    and empty: "\<forall>r \<in> set S0. \<not> sql_like (p @ ''%'') (custom_id r)"
    and ids: "map custom_id rows = map (\<lambda>i. p @ format_0d 3 (int i)) [1 ..< Suc k]"
    and bound: "k + n \<le> 999"
  shows "\<exists>rows'. create_n n mmyy today now data (S0 @ rows) = Inr (S0 @ rows @ rows') \<and>
           map custom_id rows' = map (\<lambda>i. p @ format_0d 3 (int i)) [Suc k ..< Suc (k + n)]"
  using ids bound
proof (induction n arbitrary: rows k)
  case 0
  show ?case by simp
next
  case (Suc n)
  from Suc.prems(2) have k: "k < 999" by simp
  from create_next [OF p stype empty Suc.prems(1) k, of today now]
  obtain rid row where created: "create mmyy today now data (S0 @ rows) =
      Inr (rid, S0 @ rows @ [row])"
    and row: "custom_id row = p @ format_0d 3 (int (Suc k))"
    by blast
  have ids': "map custom_id (rows @ [row]) =
      map (\<lambda>i. p @ format_0d 3 (int i)) [1 ..< Suc (Suc k)]"
    using Suc.prems(1) row by simp
  from Suc.prems(2) have bound': "Suc k + n \<le> 999" by simp
  from Suc.IH [OF ids' bound']
  obtain rest where rest: "create_n n mmyy today now data (S0 @ rows @ [row]) =
      Inr (S0 @ (rows @ [row]) @ rest)"
    and rest_ids: "map custom_id rest =
      map (\<lambda>i. p @ format_0d 3 (int i)) [Suc (Suc k) ..< Suc (Suc k + n)]"
    by auto
  have "[Suc k ..< Suc (k + Suc n)] = Suc k # [Suc (Suc k) ..< Suc (Suc k + n)]"
    by (simp add: upt_conv_Cons)
  then have "map custom_id (row # rest) =
      map (\<lambda>i. p @ format_0d 3 (int i)) [Suc k ..< Suc (k + Suc n)]"
    using row rest_ids by simp
  moreover have "create_n (Suc n) mmyy today now data (S0 @ rows) =
      Inr (S0 @ rows @ row # rest)"
    using created rest by simp
  ultimately show ?case by blast
qed

lemma get_service_slug_values:
  "get_service_slug stype \<in> insert ''OT'' (snd ` set service_slugs)"
proof (cases "map_of service_slugs stype")
  case None
  then show ?thesis by (simp add: get_service_slug_def)
next
  case (Some slug)
  then have "(stype, slug) \<in> set service_slugs" by (rule map_of_SomeD)
  then have "slug \<in> snd ` set service_slugs" by force
  with Some show ?thesis by (simp add: get_service_slug_def)
qed

lemma get_service_slug_unknown:
  "stype \<notin> fst ` set service_slugs \<Longrightarrow> get_service_slug stype = ''OT''"
  by (simp add: get_service_slug_def map_of_eq_None_iff [THEN iffD2])

lemma format_3_shape:
  assumes "k < 1000"
  shows "length (format_0d 3 (int k)) = 3" and "list_all is_digit (format_0d 3 (int k))"
proof -
  show "length (format_0d 3 (int k)) = 3" by (simp add: format_3 [OF assms])
  have "k div 100 < 10" using assms by simp
  then show "list_all is_digit (format_0d 3 (int k))"
    by (simp add: format_3 [OF assms] is_digit_digit_char)
qed

lemma format_3_one: "format_0d 3 1 = ''001''"
  by code_simp

lemma collocation_slug: "get_service_slug ''Collocation'' = ''CS''"
  by code_simp

text \<open>
  C5, amended. Up to 999 successive creations of requests of one service type in one
  month, starting from a table that holds no identifier of that bucket, all succeed;
  the \<open>i\<close>-th new identifier is the prefix \<open>GBB_SDA_MMYY_SLUG_\<close> followed by
  the number \<open>i\<close> as three digits with leading zeros, so the identifiers are
  distinct and strictly increasing, from \<open>001\<close> on. The slug is one of the table of
  18 service types, or \<open>OT\<close> for a service type outside the table. With
  \<open>Collocation\<close> in month 03/25 the first identifier is \<open>GBB_SDA_0325_CS_001\<close>.
\<close>

theorem C5_successive_ids:
  fixes store :: store
  assumes "n \<le> 999"
    and "stype = (case new_service_type data of None \<Rightarrow> ''Internet Service'' | Some s \<Rightarrow> s)"
    and "prefix = ''GBB_SDA_'' @ mmyy @ ''_'' @ get_service_slug stype @ ''_''"
    and "\<forall>r \<in> set store. \<not> sql_like (prefix @ ''%'') (custom_id r)"
  shows "(\<exists>rows. create_n n mmyy today now data store = Inr (store @ rows) \<and>
            map custom_id rows = map (\<lambda>i. prefix @ format_0d 3 (int i)) [1 ..< Suc n] \<and>
            distinct (map custom_id rows) \<and>
            sorted_wrt (<) (map custom_id rows)) \<and>
         (\<forall>i. 1 \<le> i \<and> i \<le> n \<longrightarrow>
            length (format_0d 3 (int i)) = 3 \<and>
            list_all is_digit (format_0d 3 (int i)) \<and>
            py_int (format_0d 3 (int i)) = Some (int i)) \<and>
         format_0d 3 1 = ''001'' \<and>
         generate_custom_id mmyy stype store = prefix @ ''001'' \<and>
         length service_slugs = 18 \<and>
         get_service_slug stype \<in> insert ''OT'' (snd ` set service_slugs) \<and>
         (stype \<notin> fst ` set service_slugs \<longrightarrow> get_service_slug stype = ''OT'') \<and>
         (mmyy = ''0325'' \<and> stype = ''Collocation'' \<longrightarrow>
            generate_custom_id mmyy stype store = ''GBB_SDA_0325_CS_001'')"
proof -
  let ?f = "\<lambda>i. prefix @ format_0d 3 (int i)"
  have no_rows: "map custom_id ([] :: store) = map ?f [1 ..< Suc 0]" by simp
  from assms(1) have bound: "0 + n \<le> 999" by simp
  from create_n_from [OF assms(3) assms(2) assms(4) no_rows bound, of today now]
  obtain rows where run: "create_n n mmyy today now data store = Inr (store @ rows)"
    and ids: "map custom_id rows = map ?f [1 ..< Suc n]"
    by auto
  from assms(1) have n: "n < 1000" by simp
  have increasing: "sorted_wrt (<) (map custom_id rows)"
    unfolding ids using n by (rule bucket_ids_increasing)
  then have different: "distinct (map custom_id rows)" by (simp add: strict_sorted_iff)
  have suffixes: "\<forall>i. 1 \<le> i \<and> i \<le> n \<longrightarrow>
      length (format_0d 3 (int i)) = 3 \<and>
      list_all is_digit (format_0d 3 (int i)) \<and>
      py_int (format_0d 3 (int i)) = Some (int i)"
    using n by (auto simp: format_3_shape py_int_format_3)
  have "generate_custom_id mmyy stype (store @ []) = prefix @ format_0d 3 (int (Suc 0))"
    using assms(3) assms(4) no_rows by (rule generate_custom_id_next) simp
  then have first: "generate_custom_id mmyy stype store = prefix @ ''001''"
    by (simp add: format_3_one)
  have colloc: "mmyy = ''0325'' \<and> stype = ''Collocation'' \<longrightarrow>
      generate_custom_id mmyy stype store = ''GBB_SDA_0325_CS_001''"
    using first by (auto simp: assms(3) collocation_slug)
  have table: "length service_slugs = 18" by (simp add: service_slugs_def)
  show ?thesis
    using run ids increasing different suffixes format_3_one first table
      get_service_slug_values [of stype] get_service_slug_unknown [of stype] colloc
    by blast
qed

theorem C5_successive_ids_witness:
  "(3::nat) \<le> 999 \<and>
   filter (sql_like (''GBB_SDA_0325_CS_'' @ ''%'')) (map custom_id example_store) = [] \<and>
   (\<exists>rows.
      create_n 3 ''0325'' 738886 0
        \<lparr> new_service_type = Some ''Collocation'', new_date_request_received = 738886,
          new_target_days = IntV 3 \<rparr> example_store = Inr (example_store @ rows) \<and>
      map custom_id rows =
        [''GBB_SDA_0325_CS_001'', ''GBB_SDA_0325_CS_002'', ''GBB_SDA_0325_CS_003''] \<and>
      distinct (map custom_id rows))"
proof -
  let ?data = "\<lparr> new_service_type = Some ''Collocation'', new_date_request_received = 738886,
      new_target_days = IntV 3 \<rparr>"
  have h1: "(3::nat) \<le> 999" by simp
  have h2: "''Collocation'' =
      (case new_service_type ?data of None \<Rightarrow> ''Internet Service'' | Some s \<Rightarrow> s)"
    by simp
  have h3: "''GBB_SDA_0325_CS_'' =
      ''GBB_SDA_'' @ ''0325'' @ ''_'' @ get_service_slug ''Collocation'' @ ''_''"
    by (simp add: collocation_slug)
  have none: "filter (sql_like (''GBB_SDA_0325_CS_'' @ ''%'')) (map custom_id example_store) = []"
    by code_simp
  then have h4: "\<forall>r \<in> set example_store. \<not> sql_like (''GBB_SDA_0325_CS_'' @ ''%'') (custom_id r)"
    by (simp add: filter_empty_conv)
  have ids: "map (\<lambda>i. ''GBB_SDA_0325_CS_'' @ format_0d 3 (int i)) [1 ..< Suc 3] =
      [''GBB_SDA_0325_CS_001'', ''GBB_SDA_0325_CS_002'', ''GBB_SDA_0325_CS_003'']"
    by code_simp
  from C5_successive_ids [OF h1 h2 h3 h4, of 738886 0]
  obtain rows where
    "create_n 3 ''0325'' 738886 0 ?data example_store = Inr (example_store @ rows)"
    "map custom_id rows = map (\<lambda>i. ''GBB_SDA_0325_CS_'' @ format_0d 3 (int i)) [1 ..< Suc 3]"
    "distinct (map custom_id rows)"
    by (elim conjE exE)
  with h1 none show ?thesis unfolding ids by (intro conjI exI [of _ rows])
qed

subsection \<open>Past the last three-digit number\<close>

lemma create_n_add:
  "create_n (a + b) mmyy today now data store =
     (case create_n a mmyy today now data store of
        Inl e \<Rightarrow> Inl e
      | Inr store' \<Rightarrow> create_n b mmyy today now data store')"
  by (induction a arbitrary: store) (auto split: sum.splits prod.splits)

lemma generate_custom_id_last:
  assumes "p = ''GBB_SDA_'' @ mmyy @ ''_'' @ get_service_slug stype @ ''_''"
    and "select_last_custom_id (p @ ''%'') store = Some last_id"
  shows "generate_custom_id mmyy stype store =
           p @ format_0d 3 (case py_int (last_component last_id) of
                              Some last_number \<Rightarrow> last_number + 1
                            | None \<Rightarrow> 1)"
  using assms by (simp add: generate_custom_id_def Let_def)

lemma bucket_matching_prefix:
  fixes S0 rows :: store
  assumes empty: "\<forall>r \<in> set S0. \<not> sql_like (p @ ''%'') (custom_id r)"
    and rows: "\<forall>r \<in> set rows. \<exists>x. custom_id r = p @ x"
  shows "filter (sql_like (p @ ''%'')) (map custom_id (S0 @ rows)) = map custom_id rows"
proof -
  have "filter (sql_like (p @ ''%'')) (map custom_id S0) = []"
    using empty by (simp add: filter_empty_conv)
  moreover have "filter (sql_like (p @ ''%'')) (map custom_id rows) = map custom_id rows"
    using rows by (auto simp: filter_id_conv sql_like_prefix)
  ultimately show ?thesis by simp
qed

lemma format_3_999: "format_0d 3 (int 999) = ''999''"
  by code_simp

lemma format_3_1000: "format_0d 3 (int (Suc 999)) = ''1000''"
  by code_simp

lemma py_int_999: "py_int ''999'' = Some 999"
  by code_simp

text \<open>
  The bucket after 999 identifiers: the next one is numbered 1000, with four digits.
  In the order of the strings it stands below \<open>999\<close>, so the query still finds
  \<open>999\<close> as the last identifier, the generator proposes 1000 once more, and the
  insertion of the duplicate is refused.
\<close>

lemma create_n_overflow:
  fixes S0 :: store
  assumes p: "p = ''GBB_SDA_'' @ mmyy @ ''_'' @ get_service_slug stype @ ''_''"
    and stype: "stype = (case new_service_type data of None \<Rightarrow> ''Internet Service'' | Some s \<Rightarrow> s)"
    and empty: "\<forall>r \<in> set S0. \<not> sql_like (p @ ''%'') (custom_id r)"
  shows "\<exists>rows. create_n 1000 mmyy today now data S0 = Inr (S0 @ rows) \<and>
           custom_id (last rows) = p @ ''1000''"
    and "create_n 1001 mmyy today now data S0 = Inl IntegrityError"
proof -
  let ?f = "\<lambda>i. p @ format_0d 3 (int i)"
  have no_rows: "map custom_id ([] :: store) = map ?f [1 ..< Suc 0]" by simp
  have bound: "0 + 999 \<le> (999::nat)" by simp
  from create_n_from [OF p stype empty no_rows bound, of today now]
  obtain rows where run: "create_n 999 mmyy today now data S0 = Inr (S0 @ rows)"
    and ids: "map custom_id rows = map ?f [1 ..< Suc 999]"
    by auto
  have k: "(999::nat) < 1000" by simp
  have gen: "generate_custom_id mmyy stype (S0 @ rows) = p @ ''1000''"
    using generate_custom_id_next [OF p empty ids k] by (simp only: format_3_1000)
  have short: "length x = length p + 3" if "x \<in> set (map custom_id rows)" for x
  proof -
    from that obtain i where "i \<in> set [1 ..< Suc 999]" and x: "x = ?f i"
      unfolding ids set_map by blast
    then have "i < 1000" by auto
    then show ?thesis by (simp add: x format_3_shape(1))
  qed
  have "p @ ''1000'' \<notin> custom_id ` set S0"
    using empty sql_like_prefix [of p "''1000''"] by auto
  moreover have "p @ ''1000'' \<notin> set (map custom_id rows)"
    using short [of "p @ ''1000''"] by auto
  ultimately have fresh: "p @ ''1000'' \<notin> set (map custom_id (S0 @ rows))" by simp
  obtain rid row where created: "create mmyy today now data (S0 @ rows) =
      Inr (rid, S0 @ rows @ [row])" and row: "custom_id row = p @ ''1000''"
    unfolding create_def Let_def using fresh by (simp add: gen flip: stype)
  have run1000: "create_n 1000 mmyy today now data S0 = Inr (S0 @ rows @ [row])"
    using create_n_add [of 999 1 mmyy today now data S0] run created by simp
  then show "\<exists>rows. create_n 1000 mmyy today now data S0 = Inr (S0 @ rows) \<and>
      custom_id (last rows) = p @ ''1000''"
    using row by (intro exI [of _ "rows @ [row]"]) simp
  have prefixed: "\<forall>r \<in> set (rows @ [row]). \<exists>x. custom_id r = p @ x"
  proof
    fix r
    assume "r \<in> set (rows @ [row])"
    then consider "r = row" | "custom_id r \<in> set (map custom_id rows)" by auto
    then show "\<exists>x. custom_id r = p @ x"
    proof cases
      case 1
      with row show ?thesis by blast
    next
      case 2
      then show ?thesis unfolding ids set_map by blast
    qed
  qed
  have matching: "filter (sql_like (p @ ''%'')) (map custom_id (S0 @ rows @ [row])) =
      map ?f [1 ..< Suc 999] @ [p @ ''1000'']"
    using bucket_matching_prefix [OF empty prefixed] by (simp add: ids row)
  have pos: "(0::nat) < 999" by simp
  have top: "Max (set (map ?f [1 ..< Suc 999])) = p @ ''999''"
    using bucket_max [OF pos k, of p] by (simp only: format_3_999)
  have "Max (set (map ?f [1 ..< Suc 999] @ [p @ ''1000''])) =
      max (p @ ''1000'') (Max (set (map ?f [1 ..< Suc 999])))"
    by (simp del: upt_Suc)
  also have "\<dots> = p @ ''999''"
  proof -
    have "''1000'' < ''999''" by simp
    then have "p @ ''1000'' < p @ ''999''" by (simp only: append_less_append)
    then show ?thesis unfolding top by (simp add: max_def less_imp_le)
  qed
  finally have greatest: "Max (set (map ?f [1 ..< Suc 999] @ [p @ ''1000''])) = p @ ''999''" .
  have "select_last_custom_id (p @ ''%'') (S0 @ rows @ [row]) =
      Some (Max (set (map ?f [1 ..< Suc 999] @ [p @ ''1000''])))"
    using matching by (rule select_last_matching) simp
  then have last: "select_last_custom_id (p @ ''%'') (S0 @ rows @ [row]) = Some (p @ ''999'')"
    by (simp only: greatest)
  have "last_component (p @ ''999'') = ''999''"
    using last_component_suffix [of "''999''" "''GBB_SDA_'' @ mmyy @ ''_'' @ get_service_slug stype"]
    by (simp add: p)
  then have again: "generate_custom_id mmyy stype (S0 @ rows @ [row]) = p @ ''1000''"
    using generate_custom_id_last [OF p last] by (simp add: py_int_999) (simp only: format_3_1000 [simplified])
  have "create mmyy today now data (S0 @ rows @ [row]) = Inl IntegrityError"
    unfolding create_def Let_def using row by (simp add: again flip: stype)
  then show "create_n 1001 mmyy today now data S0 = Inl IntegrityError"
    using create_n_add [of 1000 1 mmyy today now data S0] run1000 by simp
qed

text \<open>
  C5 as the specification states it, for any number of generations. In one bucket the
  thousandth identifier ends in the four digits \<open>1000\<close>, and the creation after it
  fails: the generator proposes \<open>1000\<close> a second time.
\<close>

theorem C5_beyond_999_counterexample:
  "map_sum id (\<lambda>rows. custom_id (last rows))
     (create_n 1000 ''0325'' 738886 0
        \<lparr> new_service_type = Some ''Collocation'', new_date_request_received = 738886,
          new_target_days = Null \<rparr> []) = Inr ''GBB_SDA_0325_CS_1000'' \<and>
   create_n 1001 ''0325'' 738886 0
     \<lparr> new_service_type = Some ''Collocation'', new_date_request_received = 738886,
       new_target_days = Null \<rparr> [] = Inl IntegrityError"
proof -
  let ?data = "\<lparr> new_service_type = Some ''Collocation'', new_date_request_received = 738886,
      new_target_days = Null \<rparr>"
  have p: "''GBB_SDA_0325_CS_'' =
      ''GBB_SDA_'' @ ''0325'' @ ''_'' @ get_service_slug ''Collocation'' @ ''_''"
    by (simp add: collocation_slug)
  have stype: "''Collocation'' =
      (case new_service_type ?data of None \<Rightarrow> ''Internet Service'' | Some s \<Rightarrow> s)"
    by simp
  have empty: "\<forall>r \<in> set ([] :: store). \<not> sql_like (''GBB_SDA_0325_CS_'' @ ''%'') (custom_id r)"
    by simp
  note overflow = create_n_overflow [OF p stype empty, of 738886 0]
  from overflow(1) obtain rows where
    "create_n 1000 ''0325'' 738886 0 ?data [] = Inr ([] @ rows)"
    "custom_id (last rows) = ''GBB_SDA_0325_CS_'' @ ''1000''"
    by blast
  then have "map_sum id (\<lambda>rows. custom_id (last rows))
      (create_n 1000 ''0325'' 738886 0 ?data []) = Inr ''GBB_SDA_0325_CS_1000''"
    by simp
  with overflow(2) show ?thesis by (intro conjI)
qed

subsection \<open>A last identifier that does not end in a number\<close>

text \<open>
  C10. When the greatest, in the order of the strings, of the identifiers in the table
  that match the prefix of the current month and slug ends in a component that does
  not convert to an integer, the generator returns the prefix followed by \<open>001\<close>
  and raises nothing. It does not look whether that identifier exists: if it does,
  the creation that follows fails on the duplicate.
\<close>

theorem C10_restart_at_one:
  fixes store :: store
  assumes "prefix = ''GBB_SDA_'' @ mmyy @ ''_'' @ get_service_slug stype @ ''_''"
    and "stype = (case new_service_type data of None \<Rightarrow> ''Internet Service'' | Some s \<Rightarrow> s)"
    and "matching = filter (sql_like (prefix @ ''%'')) (map custom_id store)"
    and "matching \<noteq> []"
    and "py_int (last_component (Max (set matching))) = None"
  shows "generate_custom_id mmyy stype store = prefix @ ''001'' \<and>
         (prefix @ ''001'' \<in> set (map custom_id store) \<longrightarrow>
            create mmyy today now data store = Inl IntegrityError)"
proof -
  have "select_last_custom_id (prefix @ ''%'') store = Some (Max (set matching))"
    using assms(3) [symmetric] assms(4) by (rule select_last_matching)
  from generate_custom_id_last [OF assms(1) this]
  have gen: "generate_custom_id mmyy stype store = prefix @ ''001''"
    by (simp add: assms(5) format_3_one)
  then have "prefix @ ''001'' \<in> set (map custom_id store) \<longrightarrow>
      create mmyy today now data store = Inl IntegrityError"
    unfolding create_def Let_def by (simp flip: assms(2))
  with gen show ?thesis by (intro conjI)
qed

theorem C10_restart_at_one_witness:
  "filter (sql_like (''GBB_SDA_0325_CS_'' @ ''%''))
     (map custom_id
        [example_request 1 ''GBB_SDA_0325_CS_001'' ''in_progress'' 738886 Null None (IntV 1),
         example_request 2 ''GBB_SDA_0325_CS_abc'' ''in_progress'' 738886 Null None (IntV 1)]) =
     [''GBB_SDA_0325_CS_001'', ''GBB_SDA_0325_CS_abc''] \<and>
   Max (set [''GBB_SDA_0325_CS_001'', ''GBB_SDA_0325_CS_abc'']) = ''GBB_SDA_0325_CS_abc'' \<and>
   py_int (last_component ''GBB_SDA_0325_CS_abc'') = None \<and>
   generate_custom_id ''0325'' ''Collocation''
     [example_request 1 ''GBB_SDA_0325_CS_001'' ''in_progress'' 738886 Null None (IntV 1),
      example_request 2 ''GBB_SDA_0325_CS_abc'' ''in_progress'' 738886 Null None (IntV 1)] =
     ''GBB_SDA_0325_CS_001'' \<and>
   create ''0325'' 738886 0
     \<lparr> new_service_type = Some ''Collocation'', new_date_request_received = 738886,
       new_target_days = Null \<rparr>
     [example_request 1 ''GBB_SDA_0325_CS_001'' ''in_progress'' 738886 Null None (IntV 1),
      example_request 2 ''GBB_SDA_0325_CS_abc'' ''in_progress'' 738886 Null None (IntV 1)] =
     Inl IntegrityError"
proof -
  let ?store = "[example_request 1 ''GBB_SDA_0325_CS_001'' ''in_progress'' 738886 Null None (IntV 1),
      example_request 2 ''GBB_SDA_0325_CS_abc'' ''in_progress'' 738886 Null None (IntV 1)]"
  let ?data = "\<lparr> new_service_type = Some ''Collocation'', new_date_request_received = 738886,
      new_target_days = Null \<rparr>"
  have h1: "''GBB_SDA_0325_CS_'' =
      ''GBB_SDA_'' @ ''0325'' @ ''_'' @ get_service_slug ''Collocation'' @ ''_''"
    by (simp add: collocation_slug)
  have h2: "''Collocation'' =
      (case new_service_type ?data of None \<Rightarrow> ''Internet Service'' | Some s \<Rightarrow> s)"
    by simp
  have m: "filter (sql_like (''GBB_SDA_0325_CS_'' @ ''%'')) (map custom_id ?store) =
      [''GBB_SDA_0325_CS_001'', ''GBB_SDA_0325_CS_abc'']"
    by code_simp
  have h3: "[''GBB_SDA_0325_CS_001'', ''GBB_SDA_0325_CS_abc''] =
      filter (sql_like (''GBB_SDA_0325_CS_'' @ ''%'')) (map custom_id ?store)"
    by (simp only: m)
  have h4: "[''GBB_SDA_0325_CS_001'', ''GBB_SDA_0325_CS_abc''] \<noteq> []" by simp
  have mx: "Max (set [''GBB_SDA_0325_CS_001'', ''GBB_SDA_0325_CS_abc'']) =
      ''GBB_SDA_0325_CS_abc''"
    by (simp add: max_def)
  have na: "py_int (last_component ''GBB_SDA_0325_CS_abc'') = None" by code_simp
  have h5: "py_int (last_component
      (Max (set [''GBB_SDA_0325_CS_001'', ''GBB_SDA_0325_CS_abc'']))) = None"
    by (simp only: mx na)
  have there: "''GBB_SDA_0325_CS_'' @ ''001'' \<in> set (map custom_id ?store)"
    by (simp add: example_request_def)
  from C10_restart_at_one [OF h1 h2 h3 h4 h5, of 738886 0] there
  have "generate_custom_id ''0325'' ''Collocation'' ?store = ''GBB_SDA_0325_CS_'' @ ''001''"
    and "create ''0325'' 738886 0 ?data ?store = Inl IntegrityError"
    by blast+
  with m mx na show ?thesis by simp
qed

end
